theory Spec2Isabelle
  imports Complex_Main "HOL-Library.Word" "HOL-Library.Monad_Syntax"
begin

section \<open>Data model\<close>

text \<open>
  The engine's \<^verbatim>\<open>float\<close> is binary32. Where a result depends on the rounding, in the
  jump parameters and in the conversion of the Map's counters, every operation is rounded
  as the next section defines. Elsewhere (the sums and products of the update, the
  positions) \<^verbatim>\<open>float\<close> is modelled by \<^typ>\<open>real\<close>: the operations are the source's, in
  the source's order, and exact. \<^verbatim>\<open>glm::vec2\<close> and \<^verbatim>\<open>glm::vec3\<close> are tuples of such
  numbers.
\<close>

type_synonym vec2 = "real \<times> real"
type_synonym vec3 = "real \<times> real \<times> real"

section \<open>Binary32 arithmetic\<close>

text \<open>
  A finite binary32 number is \<open>m * 2 ^ e\<close> with an integer \<open>m\<close> of magnitude below
  \<open>2 ^ 24\<close> and \<open>- 149 \<le> e \<le> 104\<close>. \<open>nearest32 x\<close> is the number of that form nearest
  to \<open>x\<close>, a tie going to the even \<open>m\<close> (the default rounding mode): \<open>binade\<close> finds the
  exponent, the least \<open>e\<close> from \<open>- 149\<close> on with \<open>\<bar>x\<bar> < 2 ^ (e + 24)\<close>, and
  \<open>roundHalfEven\<close> rounds the scaled magnitude to an integer. The search for the exponent
  stops at 105, where the result is beyond the largest finite number in any case.
\<close>

definition roundHalfEven :: "real \<Rightarrow> int" where
  "roundHalfEven x =
     (let n = \<lfloor>x\<rfloor>; d = x - of_int n
      in if d < 1 / 2 then n else if 1 / 2 < d then n + 1 else if even n then n else n + 1)"

function binade :: "real \<Rightarrow> int \<Rightarrow> int" where
  "binade m e = (if 104 < e \<or> m < 2 powi (e + 24) then e else binade m (e + 1))"
  by pat_completeness auto
termination
  by (relation "measure (\<lambda>(m, e). nat (105 - e))") auto

declare binade.simps [simp del]

definition nearest32 :: "real \<Rightarrow> real" where
  "nearest32 x =
     (let m = \<bar>x\<bar>;
          e = binade m (- 149);
          r = of_int (roundHalfEven (m / 2 powi e)) * 2 powi e
      in if x < 0 then - r else r)"

text \<open>
  The result of an operation whose exact value is \<open>x\<close>: the nearest binary32 number, and
  \<open>None\<close> when that is \<open>2 ^ 128\<close> or more in magnitude, where the code gets an infinity.
  The operations take finite numbers. A division by zero gives an infinity or NaN in
  C++ and \<open>None\<close> here. \<open>None\<close> stands for a result that is not a finite number; the
  model does not follow a computation beyond it. Every operation is rounded to binary32
  on its own: no fused multiply-add, no excess precision.
\<close>

definition round32 :: "real \<Rightarrow> real option" where
  "round32 x = (let r = nearest32 x in if 2 ^ 128 \<le> \<bar>r\<bar> then None else Some r)"

definition fadd :: "real \<Rightarrow> real \<Rightarrow> real option" where
  "fadd a b = round32 (a + b)"

definition fmul :: "real \<Rightarrow> real \<Rightarrow> real option" where
  "fmul a b = round32 (a * b)"

definition fdiv :: "real \<Rightarrow> real \<Rightarrow> real option" where
  "fdiv a b = (if b = 0 then None else round32 (a / b))"

text \<open>
  The conversion \<^verbatim>\<open>(float)n\<close> of an \<^verbatim>\<open>int\<close>: the nearest binary32 number, exact up to
  \<open>2 ^ 24\<close> in magnitude and never an infinity. \<open>countAsFloat n\<close> is the conversion of
  an \<^verbatim>\<open>int\<close> counter that was incremented \<open>n\<close> times from 0: the counter is a 32-bit
  word read as a signed number, and its overflow, which C++ leaves undefined, wraps.
\<close>

definition float_of_int :: "int \<Rightarrow> real" where
  "float_of_int n = nearest32 (of_int n)"

definition countAsFloat :: "nat \<Rightarrow> real" where
  "countAsFloat n = float_of_int (sint (word_of_nat n :: 32 word))"

section \<open>Nodes\<close>

text \<open>
  The two ways the code under study stops abnormally: a call through a null pointer, and
  \<^verbatim>\<open>std::map::at\<close> on a missing key (which throws \<^verbatim>\<open>std::out_of_range\<close>).
\<close>

datatype fault = NullDereference | OutOfRange

datatype CollisionShape =
  RectangleCollisionShape real real
| CircleCollisionShape real

text \<open>
  The fields a \<^verbatim>\<open>RigidbodyNode\<close> adds to a \<^verbatim>\<open>Node\<close>. \<open>ident\<close> stands for the
  object's address, which is what \<^verbatim>\<open>overlappedNodesThisFrame\<close> stores.
\<close>

record RigidbodyNode_fields =
  ident :: nat
  collisionShape :: CollisionShape
  velocity :: vec2
  acceleration :: vec2
  isKinematic :: bool
  isTrigger :: bool
  overlappedNodesThisFrame :: "nat list"

text \<open>The fields a \<^verbatim>\<open>PlayerNode\<close> adds to a \<^verbatim>\<open>RigidbodyNode\<close>.\<close>

record PlayerNode_fields =
  playerSpeed :: real
  fallGravityFactor :: real
  buttonPressJumpGravityFactor :: real
  startJumpVelocity :: real
  gravityAcceleration :: real

text \<open>
  The class hierarchy as a tagged union: the tag is the dynamic type of the object and
  carries the fields of that class. A node is its class, the position of its local
  transform and its children, in the order \<^verbatim>\<open>AddChild\<close> appended them.
\<close>

datatype node_class =
  PlainNode
| SpriteNode "int \<times> int"
| CameraNode
| MapNode vec2
| RigidbodyNode RigidbodyNode_fields
| PlayerNode RigidbodyNode_fields PlayerNode_fields

datatype node = Node (nodeClass: node_class) (position: vec3) (children: "node list")

section \<open>PlayerNode\<close>

subsection \<open>Jump parameters\<close>

text \<open>
  \<^verbatim>\<open>PlayerNode::SetJumpParameters\<close>, PlayerNode.cpp lines 96-101, operation by operation
  in binary32. The local \<^verbatim>\<open>jumpTime\<close> is computed in two statements, each of which
  evaluates \<^verbatim>\<open>(targetDistance / 4.f) / playerSpeed\<close>; \<open>jumpTime\<close> is its final value.
  \<^verbatim>\<open>2 * targetHeight\<close> converts the \<^verbatim>\<open>int\<close> 2 to 2.0. Unary minus binds tighter than
  division and is exact: \<^verbatim>\<open>-startJumpVelocity / jumpTime\<close> is \<open>(- v) / t\<close>. The result
  is \<open>None\<close> when an operation leaves the finite numbers.
\<close>

definition jumpTime :: "real \<Rightarrow> PlayerNode_fields \<Rightarrow> real option" where
  "jumpTime targetDistance p = do {
     q \<leftarrow> fdiv targetDistance 4;
     t \<leftarrow> fdiv q (playerSpeed p);
     q' \<leftarrow> fdiv targetDistance 4;
     u \<leftarrow> fdiv q' (playerSpeed p);
     w \<leftarrow> fmul u (fallGravityFactor p);
     fadd t w
   }"

definition SetJumpParameters ::
  "real \<Rightarrow> real \<Rightarrow> PlayerNode_fields \<Rightarrow> PlayerNode_fields option" where
  "SetJumpParameters targetHeight targetDistance p = do {
     t \<leftarrow> jumpTime targetDistance p;
     n \<leftarrow> fmul 2 targetHeight;
     v \<leftarrow> fdiv n t;
     let p = p\<lparr>startJumpVelocity := v\<rparr>;
     a \<leftarrow> fdiv (- startJumpVelocity p) t;
     g \<leftarrow> fdiv a (buttonPressJumpGravityFactor p);
     Some (p\<lparr>gravityAcceleration := g\<rparr>)
   }"


subsection \<open>Input\<close>

text \<open>
  The engine, as far as \<^verbatim>\<open>PlayerNode\<close> reads it: the state of the four direction
  keys that \<^verbatim>\<open>glfwGetKey\<close> reports for the engine's window.
\<close>

record MainEngine =
  key_W :: bool
  key_S :: bool
  key_A :: bool
  key_D :: bool

definition vec2_add :: "vec2 \<Rightarrow> vec2 \<Rightarrow> vec2" where
  "vec2_add a b = (fst a + fst b, snd a + snd b)"

text \<open>\<^verbatim>\<open>PlayerNode::GetMovementInput\<close>, PlayerNode.cpp lines 81-94.\<close>

definition GetMovementInput :: "MainEngine \<Rightarrow> vec2" where
  "GetMovementInput engine =
     (let input = (0, 0);
          input = (if key_W engine then vec2_add input (0, 1) else input);
          input = (if key_S engine then vec2_add input (0, - 1) else input);
          input = (if key_A engine then vec2_add input (- 1, 0) else input);
          input = (if key_D engine then vec2_add input (1, 0) else input)
      in input)"

subsection \<open>Child lookup\<close>

text \<open>
  \<^verbatim>\<open>dynamic_cast<RigidbodyNode*>\<close>: the cast succeeds on an object whose class is
  \<^verbatim>\<open>RigidbodyNode\<close> or derives from it, and gives a null pointer otherwise.
\<close>

fun as_RigidbodyNode :: "node \<Rightarrow> RigidbodyNode_fields option" where
  "as_RigidbodyNode (Node (RigidbodyNode rb) p cs) = Some rb"
| "as_RigidbodyNode (Node (PlayerNode rb pp) p cs) = Some rb"
| "as_RigidbodyNode (Node k p cs) = None"

text \<open>
  Modelled from the spec: \<^verbatim>\<open>Node::GetChild\<close> (Node.cpp is not under src/). The spec:
  "returning first child [...] satisfying a capability predicate [...]; returns null if
  none found". The argument is the list of the node's children; \<open>None\<close> is the null
  pointer.
\<close>

fun GetChild :: "(node \<Rightarrow> bool) \<Rightarrow> node list \<Rightarrow> node option" where
  "GetChild P [] = None"
| "GetChild P (c # cs) = (if P c then Some c else GetChild P cs)"

subsection \<open>Update\<close>

text \<open>
  \<^verbatim>\<open>PlayerNode::Update\<close>, PlayerNode.cpp lines 43-76: everything before the call of
  \<^verbatim>\<open>RigidbodyNode::Update\<close> in line 78. The player is given by its rigidbody fields,
  its player fields and its children; the result is the rigidbody fields that the base
  class's update then integrates. \<^verbatim>\<open>jumpTrigger\<close> is dereferenced in line 57 without
  a check, so a null result of the lookup is a fault.
\<close>

definition PlayerNode_Update_pre ::
  "MainEngine \<Rightarrow> RigidbodyNode_fields \<Rightarrow> PlayerNode_fields \<Rightarrow> node list
     \<Rightarrow> fault + RigidbodyNode_fields" where
  "PlayerNode_Update_pre engine rb pp cs =
     (let input = GetMovementInput engine;
          newAcceleration = acceleration rb;
          newAcceleration =
            (if \<bar>fst (velocity rb)\<bar> < playerSpeed pp \<and> \<bar>fst input\<bar> > 0
             then (fst input * 100, snd newAcceleration)
             else (fst (velocity rb) * - 10, snd newAcceleration))
      in case GetChild (\<lambda>n. as_RigidbodyNode n \<noteq> None) cs of
           None \<Rightarrow> Inl NullDereference
         | Some c \<Rightarrow>
             (case as_RigidbodyNode c of
                None \<Rightarrow> Inl NullDereference
              | Some jumpTrigger \<Rightarrow>
                  (let isGrounded = (overlappedNodesThisFrame jumpTrigger \<noteq> []);
                       rb = (if snd input > 0 \<and> isGrounded
                             then rb\<lparr>velocity := (fst (velocity rb), startJumpVelocity pp)\<rparr>
                             else rb);
                       newAcceleration = (fst newAcceleration, gravityAcceleration pp);
                       newAcceleration =
                         (if \<not> isGrounded \<and> snd (velocity rb) < 0
                          then (fst newAcceleration, snd newAcceleration * fallGravityFactor pp)
                          else newAcceleration);
                       newAcceleration =
                         (if snd input > 0
                          then (fst newAcceleration,
                                snd newAcceleration * buttonPressJumpGravityFactor pp)
                          else newAcceleration)
                   in Inr (rb\<lparr>acceleration := newAcceleration\<rparr>))))"

section \<open>RigidbodyNode\<close>

text \<open>
  An axis-aligned bounding box: its centre and its half extents. A rectangle of the given
  height and width has half extents (width / 2, height / 2); the spec treats a circle
  of radius r as the square of side 2 r.
\<close>

type_synonym aabb = "vec2 \<times> vec2"

fun halfExtents :: "CollisionShape \<Rightarrow> vec2" where
  "halfExtents (RectangleCollisionShape height width) = (width / 2, height / 2)"
| "halfExtents (CircleCollisionShape radius) = (radius, radius)"

definition aabbOverlap :: "aabb \<Rightarrow> aabb \<Rightarrow> bool" where
  "aabbOverlap a b \<longleftrightarrow>
     \<bar>fst (fst a) - fst (fst b)\<bar> < fst (snd a) + fst (snd b) \<and>
     \<bar>snd (fst a) - snd (fst b)\<bar> < snd (snd a) + snd (snd b)"

text \<open>World positions compose by translation; rotation and scale are not modelled.\<close>

definition worldPosition :: "vec3 \<Rightarrow> vec3 \<Rightarrow> vec3" where
  "worldPosition parentWorld p =
     (fst parentWorld + fst p, fst (snd parentWorld) + fst (snd p),
      snd (snd parentWorld) + snd (snd p))"

text \<open>The addresses of the rigidbodies in a subtree.\<close>

fun subtreeIdents :: "node \<Rightarrow> nat list" where
  "subtreeIdents (Node k p cs) =
     (case as_RigidbodyNode (Node k p []) of None \<Rightarrow> [] | Some rb \<Rightarrow> [ident rb])
       @ concat (map subtreeIdents cs)"

text \<open>
  Modelled from the spec: \<^verbatim>\<open>RigidbodyNode::Update\<close> (RigidbodyNode.cpp is not under
  src/), steps 1 to 4 of section 4.4; step 5, the call of the base class, follows below.
  Step 1: "If not kinematic: integrate velocity += acceleration * deltaSeconds;
  position += velocity * deltaSeconds". Steps 2 to 4: the node's world-space box is
  tested against the box of every other rigidbody of the scene, "excluding itself and
  its own descendants", and the overlap set is replaced by the result. \<open>scene\<close> lists
  the address and the world-space box of the rigidbodies of the scene tree.
\<close>

definition RigidbodyNode_Update_own ::
  "real \<Rightarrow> (nat \<times> aabb) list \<Rightarrow> vec3 \<Rightarrow> RigidbodyNode_fields \<Rightarrow> vec3 \<Rightarrow> node list
     \<Rightarrow> RigidbodyNode_fields \<times> vec3" where
  "RigidbodyNode_Update_own deltaSeconds scene parentWorld rb p cs =
     (let (rb, p) =
            (if \<not> isKinematic rb
             then (let v = (fst (velocity rb) + fst (acceleration rb) * deltaSeconds,
                            snd (velocity rb) + snd (acceleration rb) * deltaSeconds)
                   in (rb\<lparr>velocity := v\<rparr>,
                       (fst p + fst v * deltaSeconds, fst (snd p) + snd v * deltaSeconds,
                        snd (snd p))))
             else (rb, p));
          w = worldPosition parentWorld p;
          box = ((fst w, fst (snd w)), halfExtents (collisionShape rb));
          own = ident rb # concat (map subtreeIdents cs);
          overlaps = map fst (filter (\<lambda>(i, b). i \<notin> set own \<and> aabbOverlap box b) scene)
      in (rb\<lparr>overlappedNodesThisFrame := overlaps\<rparr>, p))"

section \<open>The update traversal\<close>

text \<open>
  \<open>Update\<close> is the virtual call \<^verbatim>\<open>node->Update(engine, seconds, deltaSeconds)\<close>,
  dispatched on the class of the object. \<open>Node_Update\<close> is the base class's update,
  modelled from the spec (Node.cpp is not under src/): it "recurses depth-first into
  children". \<open>RigidbodyNode_Update\<close> is the own part above followed by the base call
  (step 5); \<open>mk\<close> rebuilds the object's class from its rigidbody fields, so that the
  function also serves as the base of a \<^verbatim>\<open>PlayerNode\<close>. \<open>PlayerNode_Update\<close> is
  \<^verbatim>\<open>PlayerNode::Update\<close>, PlayerNode.cpp lines 43-79. A fault ends the traversal.
\<close>

function (sequential) Update ::
    "MainEngine \<Rightarrow> real \<Rightarrow> (nat \<times> aabb) list \<Rightarrow> vec3 \<Rightarrow> node \<Rightarrow> fault + node"
  and Update_children ::
    "MainEngine \<Rightarrow> real \<Rightarrow> (nat \<times> aabb) list \<Rightarrow> vec3 \<Rightarrow> node list \<Rightarrow> fault + node list"
  and Node_Update ::
    "MainEngine \<Rightarrow> real \<Rightarrow> (nat \<times> aabb) list \<Rightarrow> vec3 \<Rightarrow> node_class \<Rightarrow> vec3 \<Rightarrow> node list
       \<Rightarrow> fault + node"
  and RigidbodyNode_Update ::
    "MainEngine \<Rightarrow> real \<Rightarrow> (nat \<times> aabb) list \<Rightarrow> vec3 \<Rightarrow> (RigidbodyNode_fields \<Rightarrow> node_class)
       \<Rightarrow> RigidbodyNode_fields \<Rightarrow> vec3 \<Rightarrow> node list \<Rightarrow> fault + node"
  and PlayerNode_Update ::
    "MainEngine \<Rightarrow> real \<Rightarrow> (nat \<times> aabb) list \<Rightarrow> vec3 \<Rightarrow> RigidbodyNode_fields
       \<Rightarrow> PlayerNode_fields \<Rightarrow> vec3 \<Rightarrow> node list \<Rightarrow> fault + node"
where
  "Update engine dt scene pw (Node k p cs) =
     (case k of
        PlayerNode rb pp \<Rightarrow> PlayerNode_Update engine dt scene pw rb pp p cs
      | RigidbodyNode rb \<Rightarrow> RigidbodyNode_Update engine dt scene pw RigidbodyNode rb p cs
      | _ \<Rightarrow> Node_Update engine dt scene pw k p cs)"
| "Update_children engine dt scene pw [] = Inr []"
| "Update_children engine dt scene pw (c # cs) =
     (case Update engine dt scene pw c of
        Inl e \<Rightarrow> Inl e
      | Inr c' \<Rightarrow>
          (case Update_children engine dt scene pw cs of
             Inl e \<Rightarrow> Inl e
           | Inr cs' \<Rightarrow> Inr (c' # cs')))"
| "Node_Update engine dt scene pw k p cs =
     (case Update_children engine dt scene (worldPosition pw p) cs of
        Inl e \<Rightarrow> Inl e
      | Inr cs' \<Rightarrow> Inr (Node k p cs'))"
| "RigidbodyNode_Update engine dt scene pw mk rb p cs =
     (case RigidbodyNode_Update_own dt scene pw rb p cs of
        (rb', p') \<Rightarrow> Node_Update engine dt scene pw (mk rb') p' cs)"
| "PlayerNode_Update engine dt scene pw rb pp p cs =
     (case PlayerNode_Update_pre engine rb pp cs of
        Inl e \<Rightarrow> Inl e
      | Inr rb' \<Rightarrow> RigidbodyNode_Update engine dt scene pw (\<lambda>r. PlayerNode r pp) rb' p cs)"
  by pat_completeness auto
termination
  by (relation "measure (\<lambda>x. case x of
          Inl (Inl (engine, dt, scene, pw, n)) \<Rightarrow> 5 * size n
        | Inl (Inr (engine, dt, scene, pw, cs)) \<Rightarrow> 5 * size_list size cs + 1
        | Inr (Inl (engine, dt, scene, pw, k, p, cs)) \<Rightarrow> 5 * size_list size cs + 2
        | Inr (Inr (Inl (engine, dt, scene, pw, mk, rb, p, cs))) \<Rightarrow> 5 * size_list size cs + 3
        | Inr (Inr (Inr (engine, dt, scene, pw, rb, pp, p, cs))) \<Rightarrow> 5 * size_list size cs + 4)")
    simp_all

section \<open>Scene assembly\<close>

text \<open>
  Modelled from the spec: \<^verbatim>\<open>Node::AddChild\<close> (Node.cpp is not under src/), "attaches
  node as child". The children are kept in the order of the calls.
\<close>

definition AddChild :: "node list \<Rightarrow> node \<Rightarrow> node list" where
  "AddChild cs c = cs @ [c]"

text \<open>
  \<^verbatim>\<open>GetLocalTransform()->SetPosition(v)\<close>: the position of the node's local transform
  is replaced.
\<close>

fun SetPosition :: "node \<Rightarrow> vec3 \<Rightarrow> node" where
  "SetPosition (Node k p cs) v = Node k v cs"

text \<open>
  The state of a \<^verbatim>\<open>RigidbodyNode\<close> after its constructor (RigidbodyNode.cpp is not
  under src/): the shape it was given, and every other field taken to be zero, false or
  empty. \<open>self\<close> is the address of the new object.
\<close>

definition RigidbodyNode_ctor :: "nat \<Rightarrow> CollisionShape \<Rightarrow> RigidbodyNode_fields" where
  "RigidbodyNode_ctor self shape =
     \<lparr>ident = self, collisionShape = shape, velocity = (0, 0), acceleration = (0, 0),
      isKinematic = False, isTrigger = False, overlappedNodesThisFrame = []\<rparr>"

text \<open>
  \<^verbatim>\<open>SetIsTrigger\<close> and \<^verbatim>\<open>SetIsKinematic\<close> assign the flag of a rigidbody; the
  static type of the receiver rules out any other class, and the model leaves such a
  node as it is.
\<close>

fun SetIsTrigger :: "node \<Rightarrow> bool \<Rightarrow> node" where
  "SetIsTrigger (Node (RigidbodyNode rb) p cs) b = Node (RigidbodyNode (rb\<lparr>isTrigger := b\<rparr>)) p cs"
| "SetIsTrigger (Node (PlayerNode rb pp) p cs) b = Node (PlayerNode (rb\<lparr>isTrigger := b\<rparr>) pp) p cs"
| "SetIsTrigger (Node k p cs) b = Node k p cs"

fun SetIsKinematic :: "node \<Rightarrow> bool \<Rightarrow> node" where
  "SetIsKinematic (Node (RigidbodyNode rb) p cs) b =
     Node (RigidbodyNode (rb\<lparr>isKinematic := b\<rparr>)) p cs"
| "SetIsKinematic (Node (PlayerNode rb pp) p cs) b =
     Node (PlayerNode (rb\<lparr>isKinematic := b\<rparr>) pp) p cs"
| "SetIsKinematic (Node k p cs) b = Node k p cs"

text \<open>
  \<^verbatim>\<open>PlayerNode::PlayerNode\<close>, PlayerNode.cpp lines 11-41, without the \<^verbatim>\<open>DEBUG\<close>
  block. \<open>self\<close> and \<open>trigger\<close> are the addresses of the player and of its jump
  trigger, which lines 28-31 build. The literal \<^verbatim>\<open>0.8f\<close> is the binary32 number
  \<open>13421773 / 2 ^ 24\<close>; 7 and 0.5 are exact. The two fields that
  \<^verbatim>\<open>SetJumpParameters\<close> assigns are uninitialised before the call; the model starts
  them at 0. The result is \<open>None\<close> only if a jump parameter were not a finite number,
  which does not happen for these constants.
\<close>

definition jumpTrigger :: "nat \<Rightarrow> node" where
  "jumpTrigger trigger =
     (let t = Node (RigidbodyNode
                      (RigidbodyNode_ctor trigger (RectangleCollisionShape 0.15 0.7)))
                (0, 0, 0) [];
          t = SetPosition t (0, - 0.5, 0);
          t = SetIsTrigger t True
      in t)"

definition PlayerNode_ctor :: "nat \<Rightarrow> nat \<Rightarrow> node option" where
  "PlayerNode_ctor self trigger =
     (let rb = RigidbodyNode_ctor self (CircleCollisionShape (0.5 - 1 / 32));
          p = (0, 0, 2);
          pp = \<lparr>playerSpeed = 7, fallGravityFactor = 13421773 / 16777216,
                buttonPressJumpGravityFactor = 0.5,
                startJumpVelocity = 0, gravityAcceleration = 0\<rparr>
      in case SetJumpParameters 2 0.5 pp of
           None \<Rightarrow> None
         | Some pp \<Rightarrow>
             (let cs = [];
                  playerSpriteNode = Node (SpriteNode (0, 2)) (0, 0, 0) [];
                  cs = AddChild cs playerSpriteNode;
                  cameraNode = Node CameraNode (0, 0, 0) [];
                  cs = AddChild cs cameraNode;
                  cs = AddChild cs (jumpTrigger trigger)
              in Some (Node (PlayerNode rb pp) p cs)))"

section \<open>Map\<close>

text \<open>
  \<^verbatim>\<open>std::getline(file, FileLine)\<close> on the rest of the stream: at the end of the
  stream nothing is extracted and the call fails; otherwise the line is the characters
  before the next newline, or all of them when there is none, and the newline is
  consumed.
\<close>

fun getline :: "string \<Rightarrow> (string \<times> string) option" where
  "getline [] = None"
| "getline (c # s) =
     Some (takeWhile (\<lambda>x. x \<noteq> CHR 0x0A) (c # s),
           drop 1 (dropWhile (\<lambda>x. x \<noteq> CHR 0x0A) (c # s)))"

lemma getline_shorter: "getline stream = Some (line, rest) \<Longrightarrow> length rest < length stream"
proof (cases stream)
  case Nil
  assume "getline stream = Some (line, rest)"
  with Nil show ?thesis by simp
next
  case (Cons c s)
  assume g: "getline stream = Some (line, rest)"
  have "length (dropWhile (\<lambda>x. x \<noteq> CHR 0x0A) (c # s)) \<le> length (c # s)"
    by (rule length_dropWhile_le)
  with g Cons show ?thesis by auto
qed

text \<open>
  The inner loop of \<^verbatim>\<open>Map::Map\<close>, Map.cpp lines 13-19, over the characters of one
  line. \<open>clone\<close> is the virtual \<^verbatim>\<open>Clone\<close> of the prototypes, which is not under
  src/. \<^verbatim>\<open>nodesMap.at(character)\<close> throws on a character that is not a key; the fault
  carries the children the Map has at that moment. The \<^verbatim>\<open>int\<close> counters are 32-bit
  words, read as signed numbers; \<^verbatim>\<open>glm::vec3(characterNumber, lineNumber, 0)\<close>
  converts each of them to \<^verbatim>\<open>float\<close>.
\<close>

fun Map_line_loop ::
  "(node \<Rightarrow> node) \<Rightarrow> (char \<rightharpoonup> node) \<Rightarrow> 32 word \<Rightarrow> string \<Rightarrow> 32 word \<Rightarrow> node list
     \<Rightarrow> (fault \<times> node list) + (32 word \<times> node list)" where
  "Map_line_loop clone nodesMap lineNumber [] characterNumber cs = Inr (characterNumber, cs)"
| "Map_line_loop clone nodesMap lineNumber (character # rest) characterNumber cs =
     (case nodesMap character of
        None \<Rightarrow> Inl (OutOfRange, cs)
      | Some proto \<Rightarrow>
          (let tile = clone proto;
               tile = SetPosition tile
                        (float_of_int (sint characterNumber), float_of_int (sint lineNumber), 0);
               cs = AddChild cs tile
           in Map_line_loop clone nodesMap lineNumber rest (characterNumber + 1) cs))"

text \<open>The outer loop, Map.cpp lines 12-23, over the lines that \<open>getline\<close> delivers.\<close>

function Map_file_loop ::
  "(node \<Rightarrow> node) \<Rightarrow> (char \<rightharpoonup> node) \<Rightarrow> string \<Rightarrow> 32 word \<Rightarrow> vec2 \<Rightarrow> node list
     \<Rightarrow> (fault \<times> node list) + (32 word \<times> vec2 \<times> node list)" where
  "Map_file_loop clone nodesMap stream lineNumber mapSize cs =
     (case getline stream of
        None \<Rightarrow> Inr (lineNumber, mapSize, cs)
      | Some (FileLine, stream') \<Rightarrow>
          (case Map_line_loop clone nodesMap lineNumber FileLine 0 cs of
             Inl e \<Rightarrow> Inl e
           | Inr (characterNumber, cs') \<Rightarrow>
               Map_file_loop clone nodesMap stream' (lineNumber + 1)
                 (max (fst mapSize) (float_of_int (sint characterNumber)), snd mapSize) cs'))"
  by pat_completeness auto
termination
  by (relation "measure (\<lambda>(clone, nodesMap, stream, lineNumber, mapSize, cs). length stream)")
     (auto dest: getline_shorter)

text \<open>
  \<^verbatim>\<open>Map::Map\<close>, Map.cpp lines 5-27. \<open>file\<close> is the content of the file at the path,
  \<open>None\<close> when it cannot be opened: the stream then delivers no line, like an empty
  one. The new node's own position is the origin.
\<close>

definition ifstream :: "string option \<Rightarrow> string" where
  "ifstream file = (case file of None \<Rightarrow> [] | Some content \<Rightarrow> content)"

definition Map_ctor ::
  "(node \<Rightarrow> node) \<Rightarrow> string option \<Rightarrow> (char \<rightharpoonup> node) \<Rightarrow> (fault \<times> node list) + node" where
  "Map_ctor clone file nodesMap =
     (let stream = ifstream file;
          mapSize = (0, 0)
      in case Map_file_loop clone nodesMap stream 0 mapSize [] of
           Inl e \<Rightarrow> Inl e
         | Inr (lineNumber, mapSize, cs) \<Rightarrow>
             Inr (Node (MapNode (fst mapSize, float_of_int (sint lineNumber))) (0, 0, 0) cs))"

text \<open>\<^verbatim>\<open>Map::GetSize\<close>, Map.cpp lines 29-31; \<open>None\<close> on a node that is not a Map.\<close>

fun GetSize :: "node \<Rightarrow> vec2 option" where
  "GetSize (Node (MapNode mapSize) p cs) = Some mapSize"
| "GetSize (Node k p cs) = None"

text \<open>
  The lines of a stream, as successive calls of \<open>getline\<close> deliver them, and the
  characters of the lines in reading order, each with its line and its column.
\<close>

function fileLines :: "string \<Rightarrow> string list" where
  "fileLines stream =
     (case getline stream of
        None \<Rightarrow> []
      | Some (FileLine, stream') \<Rightarrow> FileLine # fileLines stream')"
  by pat_completeness auto
termination
  by (relation "measure length")
     (auto dest: getline_shorter)

definition cellsOfLine :: "nat \<Rightarrow> nat \<Rightarrow> string \<Rightarrow> (nat \<times> nat \<times> char) list" where
  "cellsOfLine r c0 line = map (\<lambda>(c, ch). (r, c, ch)) (enumerate c0 line)"

definition cellsFrom :: "nat \<Rightarrow> string list \<Rightarrow> (nat \<times> nat \<times> char) list" where
  "cellsFrom r0 ls = concat (map (\<lambda>(r, line). cellsOfLine r 0 line) (enumerate r0 ls))"

definition cells :: "string list \<Rightarrow> (nat \<times> nat \<times> char) list" where
  "cells ls = cellsFrom 0 ls"

text \<open>
  The tile that the constructor places for the character \<open>ch\<close> at column \<open>c\<close> of line
  \<open>r\<close>, if the character has a prototype: the clone of the prototype, at the position
  that the conversion of the two counters gives.
\<close>

definition tileFor :: "(node \<Rightarrow> node) \<Rightarrow> (char \<rightharpoonup> node) \<Rightarrow> nat \<times> nat \<times> char \<Rightarrow> node option" where
  "tileFor clone nodesMap cell =
     (case cell of (r, c, ch) \<Rightarrow>
        map_option (\<lambda>proto. SetPosition (clone proto) (countAsFloat c, countAsFloat r, 0))
          (nodesMap ch))"

text \<open>
  The tile as the spec describes it: the clone of the prototype, at the position
  \<open>(c, r, 0)\<close>.
\<close>

definition gridTile :: "(node \<Rightarrow> node) \<Rightarrow> (char \<rightharpoonup> node) \<Rightarrow> nat \<times> nat \<times> char \<Rightarrow> node option" where
  "gridTile clone nodesMap cell =
     (case cell of (r, c, ch) \<Rightarrow>
        map_option (\<lambda>proto. SetPosition (clone proto) (real c, real r, 0)) (nodesMap ch))"

definition hasPrototype :: "(char \<rightharpoonup> node) \<Rightarrow> nat \<times> nat \<times> char \<Rightarrow> bool" where
  "hasPrototype nodesMap cell = (case cell of (r, c, ch) \<Rightarrow> nodesMap ch \<noteq> None)"

text \<open>
  The tiles of a list of cells: one for each cell whose character has a prototype, in
  the order of the list.
\<close>

definition tilesFor ::
  "(node \<Rightarrow> node) \<Rightarrow> (char \<rightharpoonup> node) \<Rightarrow> (nat \<times> nat \<times> char) list \<Rightarrow> node list" where
  "tilesFor clone nodesMap cs = List.map_filter (tileFor clone nodesMap) cs"

text \<open>
  \<^verbatim>\<open>CreateNodeMap\<close>, MainEngine.cpp lines 209-226: the prototypes of the two
  characters of the map file, and the Map built from them. \<open>a\<close> is the address of the
  brick's rigidbody; \<open>file\<close> is the content of \<^verbatim>\<open>res/other/map\<close>.
\<close>

definition brickRigidBody :: "nat \<Rightarrow> node" where
  "brickRigidBody a =
     (let brick = Node (SpriteNode (1, 1)) (0, 0, 0) [];
          b = Node (RigidbodyNode (RigidbodyNode_ctor a (RectangleCollisionShape 1 1)))
                (0, 0, 0) [];
          b = (case b of Node k p cs \<Rightarrow> Node k p (AddChild cs brick));
          b = SetIsKinematic b True
      in b)"

definition path :: node where
  "path = Node (SpriteNode (0, 1)) (0, 0, 0) []"

definition nodesMap_CreateNodeMap :: "nat \<Rightarrow> (char \<rightharpoonup> node)" where
  "nodesMap_CreateNodeMap a = [CHR ''#'' \<mapsto> brickRigidBody a, CHR '' '' \<mapsto> path]"

definition CreateNodeMap ::
  "(node \<Rightarrow> node) \<Rightarrow> nat \<Rightarrow> string option \<Rightarrow> (fault \<times> node list) + node" where
  "CreateNodeMap clone a file = Map_ctor clone file (nodesMap_CreateNodeMap a)"

section \<open>CollisionShapeFactory\<close>

text \<open>
  CollisionShapeFactory.h declares the private field \<^verbatim>\<open>product\<close>, a shared pointer to
  a \<^verbatim>\<open>CollisionShape\<close>, the static \<^verbatim>\<open>CreateFactory\<close>,
  \<^verbatim>\<open>CreateRectangleCollisionShape(height, width)\<close>, which returns a shared pointer to
  a factory, and \<^verbatim>\<open>Build\<close>, which returns a shared pointer to a shape.
  \<^verbatim>\<open>CreateCircleCollisionShape\<close> is not declared there; PlayerNode.cpp line 12 and
  MainEngine.cpp line 199 call it. The bodies (CollisionShapeFactory.cpp) are not under
  src/.

  Which object a call returns is a matter of addresses, so factories and shapes live in
  a store: a factory's address maps to its \<^verbatim>\<open>product\<close> pointer (\<open>None\<close> is null), a
  shape's address to the shape, and \<open>nextAddress\<close> is the next address the allocator
  hands out.
\<close>

record FactoryHeap =
  factoryProduct :: "nat \<rightharpoonup> nat option"
  shapeAt :: "nat \<rightharpoonup> CollisionShape"
  nextAddress :: nat

text \<open>
  Modelled from the spec: the bodies of \<^verbatim>\<open>CreateFactory\<close>,
  \<^verbatim>\<open>CreateRectangleCollisionShape\<close>, \<^verbatim>\<open>CreateCircleCollisionShape\<close> and
  \<^verbatim>\<open>Build\<close> (CollisionShapeFactory.cpp is not under src/). The spec: "each
  returning the same factory instance for chaining, terminated by Build() which returns
  the finished immutable shape". A creating call allocates the shape and points the
  factory's product to it; a call on an address that holds no factory is a fault.
\<close>

definition CreateFactory :: "FactoryHeap \<Rightarrow> nat \<times> FactoryHeap" where
  "CreateFactory h =
     (nextAddress h,
      h\<lparr>factoryProduct := (factoryProduct h)(nextAddress h \<mapsto> None),
        nextAddress := nextAddress h + 1\<rparr>)"

definition setProduct :: "nat \<Rightarrow> CollisionShape \<Rightarrow> FactoryHeap \<Rightarrow> fault + (nat \<times> FactoryHeap)" where
  "setProduct this shape h =
     (case factoryProduct h this of
        None \<Rightarrow> Inl NullDereference
      | Some old \<Rightarrow>
          Inr (this,
               h\<lparr>factoryProduct := (factoryProduct h)(this \<mapsto> Some (nextAddress h)),
                 shapeAt := (shapeAt h)(nextAddress h \<mapsto> shape),
                 nextAddress := nextAddress h + 1\<rparr>))"

definition CreateRectangleCollisionShape ::
  "nat \<Rightarrow> real \<Rightarrow> real \<Rightarrow> FactoryHeap \<Rightarrow> fault + (nat \<times> FactoryHeap)" where
  "CreateRectangleCollisionShape this height width h =
     setProduct this (RectangleCollisionShape height width) h"

definition CreateCircleCollisionShape ::
  "nat \<Rightarrow> real \<Rightarrow> FactoryHeap \<Rightarrow> fault + (nat \<times> FactoryHeap)" where
  "CreateCircleCollisionShape this radius h =
     setProduct this (CircleCollisionShape radius) h"

definition Build :: "nat \<Rightarrow> FactoryHeap \<Rightarrow> fault + nat option" where
  "Build this h =
     (case factoryProduct h this of
        None \<Rightarrow> Inl NullDereference
      | Some product \<Rightarrow> Inr product)"

text \<open>
  Any call of the factory's interface, and its effect on the store; a faulting call
  leaves the store as it is.
\<close>

datatype FactoryCall =
  CallCreateFactory
| CallCreateRectangleCollisionShape nat real real
| CallCreateCircleCollisionShape nat real
| CallBuild nat

fun factoryCall :: "FactoryCall \<Rightarrow> FactoryHeap \<Rightarrow> FactoryHeap" where
  "factoryCall CallCreateFactory h = snd (CreateFactory h)"
| "factoryCall (CallCreateRectangleCollisionShape this height width) h =
     (case CreateRectangleCollisionShape this height width h of
        Inl e \<Rightarrow> h | Inr (f, h') \<Rightarrow> h')"
| "factoryCall (CallCreateCircleCollisionShape this radius) h =
     (case CreateCircleCollisionShape this radius h of
        Inl e \<Rightarrow> h | Inr (f, h') \<Rightarrow> h')"
| "factoryCall (CallBuild this) h = h"

text \<open>The allocator's invariant: every address in use is below the next one it hands out.\<close>

definition heapOk :: "FactoryHeap \<Rightarrow> bool" where
  "heapOk h \<longleftrightarrow>
     (\<forall>a. a \<in> dom (shapeAt h) \<longrightarrow> a < nextAddress h) \<and>
     (\<forall>a. a \<in> dom (factoryProduct h) \<longrightarrow> a < nextAddress h)"

section \<open>Properties of binary32 arithmetic\<close>

text \<open>The exponent that \<open>binade\<close> finds, and the rounding at a known exponent.\<close>

lemma binade_bounds:
  "e0 \<le> e' \<Longrightarrow> m < 2 powi (e' + 24) \<Longrightarrow> e0 \<le> binade m e0 \<and> binade m e0 \<le> e'"
proof (induction m e0 rule: binade.induct)
  case (1 m e)
  show ?case
  proof (cases "104 < e \<or> m < 2 powi (e + 24)")
    case True
    with "1.prems" show ?thesis by (simp add: binade.simps [of m e])
  next
    case False
    with "1.prems" have "e \<noteq> e'" by auto
    with "1.prems" have le: "e + 1 \<le> e'" by simp
    from "1.IH" [OF False le "1.prems"(2)] False show ?thesis
      by (simp add: binade.simps [of m e])
  qed
qed

lemma binade_eq:
  assumes "e0 \<le> e" and "m < 2 powi (e + 24)" and "e0 < e \<Longrightarrow> 2 powi (e + 23) \<le> m"
      and "e \<le> 105"
  shows "binade m e0 = e"
  using assms
proof (induction m e0 rule: binade.induct)
  case (1 m e0)
  show ?case
  proof (cases "e0 = e")
    case True
    with "1.prems" show ?thesis by (simp add: binade.simps [of m e])
  next
    case False
    with "1.prems" have lt: "e0 < e" by simp
    then have ge: "2 powi (e + 23) \<le> m" by (rule "1.prems"(3))
    have "(2::real) powi (e0 + 24) \<le> 2 powi (e + 23)"
      using lt by (intro power_int_increasing) auto
    with ge have n: "\<not> m < 2 powi (e0 + 24)" by linarith
    from lt "1.prems" have "\<not> 104 < e0" by simp
    with n have c: "\<not> (104 < e0 \<or> m < 2 powi (e0 + 24))" by simp
    have "binade m (e0 + 1) = e"
    proof (rule "1.IH" [OF c])
      show "e0 + 1 \<le> e" using lt by simp
      show "m < 2 powi (e + 24)" by (rule "1.prems"(2))
      show "2 powi (e + 23) \<le> m" if "e0 + 1 < e" by (rule ge)
      show "e \<le> 105" by (rule "1.prems"(4))
    qed
    with c show ?thesis by (simp add: binade.simps [of m e0])
  qed
qed

lemma roundHalfEven_of_int: "roundHalfEven (of_int k) = k"
  by (simp add: roundHalfEven_def)

lemma roundHalfEven_nonneg: "0 \<le> x \<Longrightarrow> 0 \<le> roundHalfEven x"
  by (simp add: roundHalfEven_def Let_def)

lemma nearest32_at:
  assumes "- 149 \<le> e" and "e \<le> 105" and "\<bar>x\<bar> < 2 powi (e + 24)"
      and "- 149 < e \<Longrightarrow> 2 powi (e + 23) \<le> \<bar>x\<bar>"
  shows "nearest32 x =
           (if x < 0 then - (of_int (roundHalfEven (\<bar>x\<bar> / 2 powi e)) * 2 powi e)
            else of_int (roundHalfEven (\<bar>x\<bar> / 2 powi e)) * 2 powi e)"
proof -
  have b: "binade \<bar>x\<bar> (- 149) = e"
    using assms by (intro binade_eq) auto
  show ?thesis unfolding nearest32_def Let_def b by (rule refl)
qed

lemma round32_at:
  assumes "- 149 \<le> e" and "e \<le> 104" and "\<bar>x\<bar> < 2 powi (e + 24)"
      and "- 149 < e \<Longrightarrow> 2 powi (e + 23) \<le> \<bar>x\<bar>"
  shows "round32 x =
           (if (2::real) ^ 128 \<le> of_int (roundHalfEven (\<bar>x\<bar> / 2 powi e)) * 2 powi e then None
            else Some (if x < 0 then - (of_int (roundHalfEven (\<bar>x\<bar> / 2 powi e)) * 2 powi e)
                       else of_int (roundHalfEven (\<bar>x\<bar> / 2 powi e)) * 2 powi e))"
proof -
  have n: "nearest32 x =
           (if x < 0 then - (of_int (roundHalfEven (\<bar>x\<bar> / 2 powi e)) * 2 powi e)
            else of_int (roundHalfEven (\<bar>x\<bar> / 2 powi e)) * 2 powi e)"
    using assms by (intro nearest32_at) auto
  have "0 \<le> roundHalfEven (\<bar>x\<bar> / 2 powi e)"
    by (rule roundHalfEven_nonneg) simp
  then have "0 \<le> real_of_int (roundHalfEven (\<bar>x\<bar> / 2 powi e)) * 2 powi e"
    by simp
  then show ?thesis
    unfolding round32_def Let_def n by auto
qed

text \<open>The conversion of a counter is exact up to \<open>2 ^ 24\<close>, and not beyond.\<close>

lemma nearest32_of_nat:
  assumes "n \<le> 2 ^ 24"
  shows "nearest32 (real n) = real n"
proof (cases "n = 2 ^ 24")
  case True
  have "nearest32 (real n) = of_int (roundHalfEven (\<bar>real n\<bar> / 2 powi 1)) * 2 powi 1"
    using True by (subst nearest32_at [of 1]) simp_all
  also have "\<dots> = real n"
    using True by (simp add: roundHalfEven_def)
  finally show ?thesis .
next
  case False
  with assms have lt: "n < 2 ^ 24" by simp
  then have "real n < 2 ^ 24"
    by (metis of_nat_less_iff of_nat_numeral of_nat_power)
  then have "\<bar>real n\<bar> < 2 powi (0 + 24)" by simp
  from binade_bounds [OF _ this, of "- 149"]
  have b: "- 149 \<le> binade \<bar>real n\<bar> (- 149)" "binade \<bar>real n\<bar> (- 149) \<le> 0" by simp_all
  define k where "k = nat (- binade \<bar>real n\<bar> (- 149))"
  with b have e: "binade \<bar>real n\<bar> (- 149) = - int k" by simp
  have p: "(2::real) powi (- int k) = 1 / 2 ^ k"
    by (simp add: power_int_minus field_simps)
  have "\<bar>real n\<bar> / 2 powi (- int k) = of_int (int n * 2 ^ k)"
    by (simp add: p)
  then have r: "roundHalfEven (\<bar>real n\<bar> / 2 powi (- int k)) = int n * 2 ^ k"
    by (simp only: roundHalfEven_of_int)
  show ?thesis
    unfolding nearest32_def Let_def e r by (simp add: p)
qed

lemma sint_word_of_nat:
  assumes "n < 2 ^ 31"
  shows "sint (word_of_nat n :: 32 word) = int n"
proof -
  have "int n < 2 ^ 31"
    using assms by (metis of_nat_less_iff of_nat_numeral of_nat_power)
  then have "signed_take_bit 31 (int n) = int n"
    by (intro signed_take_bit_int_eq_self) simp_all
  then show ?thesis by (simp add: signed_of_nat)
qed

lemma countAsFloat_exact:
  assumes "n \<le> 2 ^ 24"
  shows "countAsFloat n = real n"
proof -
  from assms have "n < 2 ^ 31" by simp
  then have "sint (word_of_nat n :: 32 word) = int n" by (rule sint_word_of_nat)
  with nearest32_of_nat [OF assms] show ?thesis
    by (simp add: countAsFloat_def float_of_int_def)
qed

lemma countAsFloat_16777217: "countAsFloat 16777217 = 16777216"
proof -
  have "sint (word_of_nat 16777217 :: 32 word) = 16777217"
    using sint_word_of_nat [of 16777217] by simp
  moreover have "nearest32 16777217 = 16777216"
    by (subst nearest32_at [of 1]) (simp_all add: roundHalfEven_def)
  ultimately show ?thesis by (simp add: countAsFloat_def float_of_int_def)
qed

section \<open>Properties of the jump parameters\<close>

text \<open>The literal \<^verbatim>\<open>0.8f\<close>, and the operations of the constructor's call one by one.\<close>

lemma literal_0_8f: "round32 0.8 = Some (13421773 / 16777216)"
  by (subst round32_at [of "- 24"]) (simp_all add: roundHalfEven_def)

lemma fdiv_quarter: "fdiv (1 / 2) 4 = Some (1 / 8)"
  unfolding fdiv_def by (simp, subst round32_at [of "- 26"]) (simp_all add: roundHalfEven_def)

lemma fdiv_speed_7: "fdiv (1 / 8) 7 = Some (9586981 / 536870912)"
  unfolding fdiv_def by (simp, subst round32_at [of "- 29"]) (simp_all add: roundHalfEven_def)

lemma fmul_fall_7:
  "fmul (9586981 / 536870912) (13421773 / 16777216) = Some (7669585 / 536870912)"
  unfolding fmul_def by (subst round32_at [of "- 30"]) (simp_all add: roundHalfEven_def)

lemma fadd_jumpTime_7:
  "fadd (9586981 / 536870912) (7669585 / 536870912) = Some (8628283 / 268435456)"
  unfolding fadd_def by (subst round32_at [of "- 28"]) (simp_all add: roundHalfEven_def)

lemma fmul_height: "fmul 2 2 = Some 4"
  unfolding fmul_def by (subst round32_at [of "- 21"]) (simp_all add: roundHalfEven_def)

lemma fdiv_velocity: "fdiv 4 (8628283 / 268435456) = Some (16311181 / 131072)"
  unfolding fdiv_def by (simp, subst round32_at [of "- 17"]) (simp_all add: roundHalfEven_def)

lemma fdiv_gravity_1:
  "fdiv (- (16311181 / 131072)) (8628283 / 268435456) = Some (- (3964523 / 1024))"
  unfolding fdiv_def by (simp, subst round32_at [of "- 12"]) (simp_all add: roundHalfEven_def)

lemma fdiv_gravity_2: "fdiv (- (3964523 / 1024)) (1 / 2) = Some (- (3964523 / 512))"
  unfolding fdiv_def by (simp, subst round32_at [of "- 11"]) (simp_all add: roundHalfEven_def)







lemma jumpTime_7:
  "jumpTime (1 / 2)
     \<lparr>playerSpeed = 7, fallGravityFactor = 13421773 / 16777216,
      buttonPressJumpGravityFactor = 1 / 2, startJumpVelocity = v0, gravityAcceleration = g0\<rparr>
   = Some (8628283 / 268435456)"
  by (simp add: jumpTime_def fdiv_quarter fdiv_speed_7 fmul_fall_7 fadd_jumpTime_7)

lemma SetJumpParameters_7:
  "SetJumpParameters 2 (1 / 2)
     \<lparr>playerSpeed = 7, fallGravityFactor = 13421773 / 16777216,
      buttonPressJumpGravityFactor = 1 / 2, startJumpVelocity = v0, gravityAcceleration = g0\<rparr>
   = Some \<lparr>playerSpeed = 7, fallGravityFactor = 13421773 / 16777216,
           buttonPressJumpGravityFactor = 1 / 2, startJumpVelocity = 16311181 / 131072,
           gravityAcceleration = - (3964523 / 512)\<rparr>"
  by (simp add: SetJumpParameters_def jumpTime_7 fmul_height fdiv_velocity fdiv_gravity_1
        fdiv_gravity_2)



section \<open>Properties of the child lookup\<close>

lemma GetChild_None_iff: "GetChild P cs = None \<longleftrightarrow> (\<forall>c \<in> set cs. \<not> P c)"
  by (induction cs) auto

lemma GetChild_first:
  "\<forall>x \<in> set pre. \<not> P x \<Longrightarrow> P c \<Longrightarrow> GetChild P (pre @ c # post) = Some c"
  by (induction pre) auto

lemma GetChild_Some_holds: "GetChild P cs = Some c \<Longrightarrow> P c"
  by (induction cs) (auto split: if_splits)

lemma GetChild_rigidbody:
  assumes "cs = pre @ c # post"
      and "\<forall>x \<in> set pre. as_RigidbodyNode x = None"
      and "as_RigidbodyNode c = Some t"
  shows "GetChild (\<lambda>n. as_RigidbodyNode n \<noteq> None) cs = Some c"
proof -
  have "\<forall>x \<in> set pre. \<not> (as_RigidbodyNode x \<noteq> None)" using assms(2) by simp
  moreover have "as_RigidbodyNode c \<noteq> None" using assms(3) by simp
  ultimately show ?thesis
    unfolding assms(1) by (rule GetChild_first)
qed

section \<open>Properties of the player's update\<close>

text \<open>
  The constructor gives every player a jump trigger, after a sprite and a camera:
  the lookup of \<^verbatim>\<open>PlayerNode::Update\<close> finds it. Its jump parameters are the binary32
  numbers of the preceding section.
\<close>

lemma PlayerNode_ctor_value:
  "PlayerNode_ctor self trigger
     = Some (Node (PlayerNode (RigidbodyNode_ctor self (CircleCollisionShape (15 / 32)))
                     \<lparr>playerSpeed = 7, fallGravityFactor = 13421773 / 16777216,
                      buttonPressJumpGravityFactor = 1 / 2,
                      startJumpVelocity = 16311181 / 131072,
                      gravityAcceleration = - (3964523 / 512)\<rparr>)
               (0, 0, 2)
               [Node (SpriteNode (0, 2)) (0, 0, 0) [], Node CameraNode (0, 0, 0) [],
                jumpTrigger trigger])"
  using SetJumpParameters_7 [of 0 0]
  by (simp add: PlayerNode_ctor_def AddChild_def Let_def)

lemma jumpTrigger_rigidbody:
  "as_RigidbodyNode (jumpTrigger trigger)
     = Some ((RigidbodyNode_ctor trigger (RectangleCollisionShape 0.15 0.7))\<lparr>isTrigger := True\<rparr>)"
  by (simp add: jumpTrigger_def Let_def)

lemma PlayerNode_ctor_trigger:
  "PlayerNode_ctor self trigger = Some n \<Longrightarrow>
     GetChild (\<lambda>n. as_RigidbodyNode n \<noteq> None) (children n) = Some (jumpTrigger trigger)"
  by (auto simp: PlayerNode_ctor_value jumpTrigger_rigidbody)

text \<open>
  C2. In a call of \<^verbatim>\<open>PlayerNode::Update\<close> on a player whose first rigidbody child
  is the jump trigger, the vertical acceleration handed to the integration of
  \<^verbatim>\<open>RigidbodyNode::Update\<close> is \<^verbatim>\<open>gravityAcceleration\<close>, multiplied by
  \<^verbatim>\<open>fallGravityFactor\<close> exactly when the player is airborne and falling (the trigger
  overlaps nothing and the vertical velocity is negative), and multiplied by
  \<^verbatim>\<open>buttonPressJumpGravityFactor\<close> exactly when the vertical input is positive.
\<close>

theorem Update_vertical_acceleration:
  assumes "cs = pre @ c # post"
      and "\<forall>x \<in> set pre. as_RigidbodyNode x = None"
      and "as_RigidbodyNode c = Some trigger"
  shows "\<exists>rb'. PlayerNode_Update_pre engine rb pp cs = Inr rb'
           \<and> PlayerNode_Update engine dt scene pw rb pp p cs
             = RigidbodyNode_Update engine dt scene pw (\<lambda>r. PlayerNode r pp) rb' p cs
           \<and> snd (acceleration rb') =
               gravityAcceleration pp
                 * (if overlappedNodesThisFrame trigger = [] \<and> snd (velocity rb) < 0
                    then fallGravityFactor pp else 1)
                 * (if snd (GetMovementInput engine) > 0
                    then buttonPressJumpGravityFactor pp else 1)"
proof -
  note g = GetChild_rigidbody [OF assms]
  show ?thesis
    unfolding PlayerNode_Update.simps
    unfolding PlayerNode_Update_pre_def Let_def g option.case assms(3)
    by simp
qed

theorem Update_vertical_acceleration_witness:
  "\<exists>rb'. PlayerNode_Update_pre \<lparr>key_W = True, key_S = False, key_A = False, key_D = False\<rparr>
            ((RigidbodyNode_ctor 1 (CircleCollisionShape (15 / 32)))\<lparr>velocity := (0, - 3)\<rparr>)
            \<lparr>playerSpeed = 7, fallGravityFactor = 13421773 / 16777216,
             buttonPressJumpGravityFactor = 1 / 2, startJumpVelocity = 16311181 / 131072,
             gravityAcceleration = - (3964523 / 512)\<rparr>
            [Node (SpriteNode (0, 2)) (0, 0, 0) [], Node CameraNode (0, 0, 0) [], jumpTrigger 2]
          = Inr rb'
         \<and> snd (acceleration rb') = - (3964523 / 512) * (13421773 / 16777216) * (1 / 2)"
proof -
  let ?E = "\<lparr>key_W = True, key_S = False, key_A = False, key_D = False\<rparr>"
  let ?rb = "(RigidbodyNode_ctor 1 (CircleCollisionShape (15 / 32)))\<lparr>velocity := (0, - 3)\<rparr>"
  let ?pp = "\<lparr>playerSpeed = 7, fallGravityFactor = 13421773 / 16777216,
             buttonPressJumpGravityFactor = 1 / 2, startJumpVelocity = 16311181 / 131072,
             gravityAcceleration = - (3964523 / 512)\<rparr>"
  let ?t = "(RigidbodyNode_ctor 2 (RectangleCollisionShape 0.15 0.7))\<lparr>isTrigger := True\<rparr>"
  let ?pre = "[Node (SpriteNode (0, 2)) (0, 0, 0) [], Node CameraNode (0, 0, 0) []]"
  let ?cs = "[Node (SpriteNode (0, 2)) (0, 0, 0) [], Node CameraNode (0, 0, 0) [], jumpTrigger 2]"
  have h1: "?cs = ?pre @ jumpTrigger 2 # []"
    by simp
  have h2: "\<forall>x \<in> set ?pre. as_RigidbodyNode x = None"
    by simp
  have h3: "as_RigidbodyNode (jumpTrigger 2) = Some ?t"
    by (rule jumpTrigger_rigidbody)
  from Update_vertical_acceleration [OF h1 h2 h3, of ?E ?rb ?pp 0 "[]" "(0, 0, 0)" "(0, 0, 2)"]
  obtain rb' where a: "PlayerNode_Update_pre ?E ?rb ?pp ?cs = Inr rb'"
    and b: "snd (acceleration rb') =
               gravityAcceleration ?pp
                 * (if overlappedNodesThisFrame ?t = [] \<and> snd (velocity ?rb) < 0
                    then fallGravityFactor ?pp else 1)
                 * (if snd (GetMovementInput ?E) > 0
                    then buttonPressJumpGravityFactor ?pp else 1)"
    by blast
  from b have "snd (acceleration rb') = - (3964523 / 512) * (13421773 / 16777216) * (1 / 2)"
    by (simp add: RigidbodyNode_ctor_def GetMovementInput_def vec2_add_def Let_def)
  with a show ?thesis by blast
qed

text \<open>
  C3. In a call of \<^verbatim>\<open>PlayerNode::Update\<close>, the player counts as grounded iff the
  overlap set of its first rigidbody child, the jump trigger, is not empty; iff the
  vertical input is positive and the player is grounded, the vertical velocity becomes
  \<^verbatim>\<open>startJumpVelocity\<close>, the horizontal velocity staying as it is; otherwise the
  velocity is not touched. That velocity is what the update hands to the integration of
  \<^verbatim>\<open>RigidbodyNode::Update\<close>.
\<close>

theorem Update_jump_velocity:
  assumes "cs = pre @ c # post"
      and "\<forall>x \<in> set pre. as_RigidbodyNode x = None"
      and "as_RigidbodyNode c = Some trigger"
  shows "\<exists>rb'. PlayerNode_Update_pre engine rb pp cs = Inr rb'
           \<and> PlayerNode_Update engine dt scene pw rb pp p cs
             = RigidbodyNode_Update engine dt scene pw (\<lambda>r. PlayerNode r pp) rb' p cs
           \<and> velocity rb' =
               (if snd (GetMovementInput engine) > 0 \<and> overlappedNodesThisFrame trigger \<noteq> []
                then (fst (velocity rb), startJumpVelocity pp)
                else velocity rb)"
proof -
  note g = GetChild_rigidbody [OF assms]
  show ?thesis
    unfolding PlayerNode_Update.simps
    unfolding PlayerNode_Update_pre_def Let_def g option.case assms(3)
    by simp
qed

theorem Update_jump_velocity_witness:
  "\<exists>rb'. PlayerNode_Update_pre \<lparr>key_W = True, key_S = False, key_A = False, key_D = False\<rparr>
            ((RigidbodyNode_ctor 1 (CircleCollisionShape (15 / 32)))\<lparr>velocity := (4, - 3)\<rparr>)
            \<lparr>playerSpeed = 7, fallGravityFactor = 13421773 / 16777216,
             buttonPressJumpGravityFactor = 1 / 2, startJumpVelocity = 16311181 / 131072,
             gravityAcceleration = - (3964523 / 512)\<rparr>
            [Node (SpriteNode (0, 2)) (0, 0, 0) [], Node CameraNode (0, 0, 0) [],
             Node (RigidbodyNode
                     ((RigidbodyNode_ctor 2 (RectangleCollisionShape 0.15 0.7))
                        \<lparr>isTrigger := True, overlappedNodesThisFrame := [7]\<rparr>))
               (0, - 0.5, 0) [],
             brickRigidBody 7] = Inr rb'
         \<and> PlayerNode_Update \<lparr>key_W = True, key_S = False, key_A = False, key_D = False\<rparr>
              (1 / 60) [] (0, 0, 0)
              ((RigidbodyNode_ctor 1 (CircleCollisionShape (15 / 32)))\<lparr>velocity := (4, - 3)\<rparr>)
              \<lparr>playerSpeed = 7, fallGravityFactor = 13421773 / 16777216,
               buttonPressJumpGravityFactor = 1 / 2, startJumpVelocity = 16311181 / 131072,
               gravityAcceleration = - (3964523 / 512)\<rparr>
              (0, 0, 2)
              [Node (SpriteNode (0, 2)) (0, 0, 0) [], Node CameraNode (0, 0, 0) [],
               Node (RigidbodyNode
                       ((RigidbodyNode_ctor 2 (RectangleCollisionShape 0.15 0.7))
                          \<lparr>isTrigger := True, overlappedNodesThisFrame := [7]\<rparr>))
                 (0, - 0.5, 0) [],
               brickRigidBody 7]
           = RigidbodyNode_Update \<lparr>key_W = True, key_S = False, key_A = False, key_D = False\<rparr>
              (1 / 60) [] (0, 0, 0)
              (\<lambda>r. PlayerNode r
                 \<lparr>playerSpeed = 7, fallGravityFactor = 13421773 / 16777216,
                  buttonPressJumpGravityFactor = 1 / 2, startJumpVelocity = 16311181 / 131072,
                  gravityAcceleration = - (3964523 / 512)\<rparr>)
              rb' (0, 0, 2)
              [Node (SpriteNode (0, 2)) (0, 0, 0) [], Node CameraNode (0, 0, 0) [],
               Node (RigidbodyNode
                       ((RigidbodyNode_ctor 2 (RectangleCollisionShape 0.15 0.7))
                          \<lparr>isTrigger := True, overlappedNodesThisFrame := [7]\<rparr>))
                 (0, - 0.5, 0) [],
               brickRigidBody 7]
         \<and> velocity rb' = (4, 16311181 / 131072)"
proof -
  let ?E = "\<lparr>key_W = True, key_S = False, key_A = False, key_D = False\<rparr>"
  let ?rb = "(RigidbodyNode_ctor 1 (CircleCollisionShape (15 / 32)))\<lparr>velocity := (4, - 3)\<rparr>"
  let ?pp = "\<lparr>playerSpeed = 7, fallGravityFactor = 13421773 / 16777216,
             buttonPressJumpGravityFactor = 1 / 2, startJumpVelocity = 16311181 / 131072,
             gravityAcceleration = - (3964523 / 512)\<rparr>"
  let ?t = "(RigidbodyNode_ctor 2 (RectangleCollisionShape 0.15 0.7))
              \<lparr>isTrigger := True, overlappedNodesThisFrame := [7]\<rparr>"
  let ?pre = "[Node (SpriteNode (0, 2)) (0, 0, 0) [], Node CameraNode (0, 0, 0) []]"
  let ?cs = "[Node (SpriteNode (0, 2)) (0, 0, 0) [], Node CameraNode (0, 0, 0) [],
              Node (RigidbodyNode ?t) (0, - 0.5, 0) [], brickRigidBody 7]"
  have h1: "?cs = ?pre @ Node (RigidbodyNode ?t) (0, - 0.5, 0) [] # [brickRigidBody 7]"
    by simp
  have h2: "\<forall>x \<in> set ?pre. as_RigidbodyNode x = None"
    by simp
  have h3: "as_RigidbodyNode (Node (RigidbodyNode ?t) (0, - 0.5, 0) []) = Some ?t"
    by simp
  from Update_jump_velocity [OF h1 h2 h3, of ?E ?rb ?pp "1 / 60" "[]" "(0, 0, 0)" "(0, 0, 2)"]
  obtain rb' where a: "PlayerNode_Update_pre ?E ?rb ?pp ?cs = Inr rb'"
    and u: "PlayerNode_Update ?E (1 / 60) [] (0, 0, 0) ?rb ?pp (0, 0, 2) ?cs
              = RigidbodyNode_Update ?E (1 / 60) [] (0, 0, 0) (\<lambda>r. PlayerNode r ?pp) rb'
                  (0, 0, 2) ?cs"
    and b: "velocity rb' =
               (if snd (GetMovementInput ?E) > 0 \<and> overlappedNodesThisFrame ?t \<noteq> []
                then (fst (velocity ?rb), startJumpVelocity ?pp)
                else velocity ?rb)"
    by blast
  from b have "velocity rb' = (4, 16311181 / 131072)"
    by (simp add: RigidbodyNode_ctor_def GetMovementInput_def vec2_add_def Let_def)
  with a u show ?thesis by blast
qed

text \<open>
  C4. In a call of \<^verbatim>\<open>PlayerNode::Update\<close> on a player that has a rigidbody child,
  the horizontal acceleration handed to the integration is \<open>input.x * 100\<close> if the
  magnitude of the horizontal velocity is below \<^verbatim>\<open>playerSpeed\<close> and the horizontal
  input is not zero, and the horizontal velocity times \<open>- 10\<close> in every other case.
\<close>

theorem Update_horizontal_acceleration:
  assumes "\<exists>c \<in> set cs. as_RigidbodyNode c \<noteq> None"
  shows "\<exists>rb'. PlayerNode_Update_pre engine rb pp cs = Inr rb'
           \<and> PlayerNode_Update engine dt scene pw rb pp p cs
             = RigidbodyNode_Update engine dt scene pw (\<lambda>r. PlayerNode r pp) rb' p cs
           \<and> fst (acceleration rb') =
               (if \<bar>fst (velocity rb)\<bar> < playerSpeed pp \<and> fst (GetMovementInput engine) \<noteq> 0
                then fst (GetMovementInput engine) * 100
                else fst (velocity rb) * - 10)"
proof -
  from assms have "GetChild (\<lambda>n. as_RigidbodyNode n \<noteq> None) cs \<noteq> None"
    unfolding GetChild_None_iff by blast
  then obtain c where g: "GetChild (\<lambda>n. as_RigidbodyNode n \<noteq> None) cs = Some c"
    by blast
  from GetChild_Some_holds [OF g] obtain t where t: "as_RigidbodyNode c = Some t"
    by blast
  show ?thesis
    unfolding PlayerNode_Update.simps
    unfolding PlayerNode_Update_pre_def Let_def g option.case t
    by auto
qed

theorem Update_horizontal_acceleration_witness:
  "\<exists>rb'. PlayerNode_Update_pre \<lparr>key_W = False, key_S = False, key_A = True, key_D = False\<rparr>
            ((RigidbodyNode_ctor 1 (CircleCollisionShape (15 / 32)))\<lparr>velocity := (4, - 3)\<rparr>)
            \<lparr>playerSpeed = 7, fallGravityFactor = 13421773 / 16777216,
             buttonPressJumpGravityFactor = 1 / 2, startJumpVelocity = 16311181 / 131072,
             gravityAcceleration = - (3964523 / 512)\<rparr>
            [Node (SpriteNode (0, 2)) (0, 0, 0) [], Node CameraNode (0, 0, 0) [], jumpTrigger 2]
          = Inr rb'
         \<and> fst (acceleration rb') = - 100"
proof -
  let ?E = "\<lparr>key_W = False, key_S = False, key_A = True, key_D = False\<rparr>"
  let ?rb = "(RigidbodyNode_ctor 1 (CircleCollisionShape (15 / 32)))\<lparr>velocity := (4, - 3)\<rparr>"
  let ?pp = "\<lparr>playerSpeed = 7, fallGravityFactor = 13421773 / 16777216,
             buttonPressJumpGravityFactor = 1 / 2, startJumpVelocity = 16311181 / 131072,
             gravityAcceleration = - (3964523 / 512)\<rparr>"
  let ?cs = "[Node (SpriteNode (0, 2)) (0, 0, 0) [], Node CameraNode (0, 0, 0) [], jumpTrigger 2]"
  have h: "\<exists>c \<in> set ?cs. as_RigidbodyNode c \<noteq> None"
    by (simp add: jumpTrigger_rigidbody)
  from Update_horizontal_acceleration [OF h, of ?E ?rb ?pp 0 "[]" "(0, 0, 0)" "(0, 0, 2)"]
  obtain rb' where a: "PlayerNode_Update_pre ?E ?rb ?pp ?cs = Inr rb'"
    and b: "fst (acceleration rb') =
               (if \<bar>fst (velocity ?rb)\<bar> < playerSpeed ?pp \<and> fst (GetMovementInput ?E) \<noteq> 0
                then fst (GetMovementInput ?E) * 100
                else fst (velocity ?rb) * - 10)"
    by blast
  from b have "fst (acceleration rb') = - 100"
    by (simp add: RigidbodyNode_ctor_def GetMovementInput_def vec2_add_def Let_def)
  with a show ?thesis by blast
qed

text \<open>
  C5, as the code has it. For a player none of whose children is a rigidbody, the lookup
  in \<^verbatim>\<open>PlayerNode::Update\<close> returns the null pointer, and line 57 calls
  \<^verbatim>\<open>GetOverlappedNodesThisFrame\<close> through it without a check: the update stops with
  a null dereference, for every input and every state of the player.
\<close>

theorem Update_without_rigidbody_child:
  assumes "\<forall>c \<in> set cs. as_RigidbodyNode c = None"
  shows "GetChild (\<lambda>n. as_RigidbodyNode n \<noteq> None) cs = None
       \<and> PlayerNode_Update_pre engine rb pp cs = Inl NullDereference
       \<and> PlayerNode_Update engine dt scene pw rb pp p cs = Inl NullDereference
       \<and> Update engine dt scene pw (Node (PlayerNode rb pp) p cs) = Inl NullDereference"
proof -
  from assms have g: "GetChild (\<lambda>n. as_RigidbodyNode n \<noteq> None) cs = None"
    by (simp add: GetChild_None_iff)
  then have "PlayerNode_Update_pre engine rb pp cs = Inl NullDereference"
    by (simp add: PlayerNode_Update_pre_def Let_def)
  with g show ?thesis by simp
qed

theorem Update_without_rigidbody_child_witness:
  "PlayerNode_Update \<lparr>key_W = False, key_S = False, key_A = False, key_D = False\<rparr> 0 [] (0, 0, 0)
     (RigidbodyNode_ctor 1 (CircleCollisionShape (0.5 - 1 / 32)))
     \<lparr>playerSpeed = 7, fallGravityFactor = 13421773 / 16777216,
      buttonPressJumpGravityFactor = 1 / 2, startJumpVelocity = 16311181 / 131072,
      gravityAcceleration = - (3964523 / 512)\<rparr>
     (0, 0, 2) [Node (SpriteNode (0, 2)) (0, 0, 0) [], Node CameraNode (0, 0, 0) []]
   = Inl NullDereference"
proof -
  have h: "\<forall>c \<in> set [Node (SpriteNode (0, 2)) (0, 0, 0) [], Node CameraNode (0, 0, 0) []].
             as_RigidbodyNode c = None"
    by simp
  from Update_without_rigidbody_child [OF h] show ?thesis by blast
qed

theorem Update_null_trigger_counterexample:
  "Update \<lparr>key_W = False, key_S = False, key_A = False, key_D = False\<rparr> (1 / 60) [] (0, 0, 0)
     (Node (PlayerNode (RigidbodyNode_ctor 1 (CircleCollisionShape (0.5 - 1 / 32)))
              \<lparr>playerSpeed = 7, fallGravityFactor = 13421773 / 16777216,
               buttonPressJumpGravityFactor = 1 / 2, startJumpVelocity = 16311181 / 131072,
               gravityAcceleration = - (3964523 / 512)\<rparr>)
        (0, 0, 2) [Node (SpriteNode (0, 2)) (0, 0, 0) []])
   = Inl NullDereference"
  by (simp add: PlayerNode_Update_pre_def Let_def)

section \<open>Properties of the rigidbody's update\<close>

lemma RigidbodyNode_Update_own_kinematic:
  "isKinematic rb \<Longrightarrow> snd (RigidbodyNode_Update_own dt scene pw rb p cs) = p"
  by (simp add: RigidbodyNode_Update_own_def Let_def)

lemma Node_Update_position:
  "Node_Update engine dt scene pw k p cs = Inr n' \<Longrightarrow> position n' = p"
  by (auto split: sum.splits)

lemma RigidbodyNode_Update_kinematic:
  assumes "isKinematic rb"
      and "RigidbodyNode_Update engine dt scene pw mk rb p cs = Inr n'"
  shows "position n' = p"
proof -
  obtain rb' p' where o: "RigidbodyNode_Update_own dt scene pw rb p cs = (rb', p')"
    by (cases "RigidbodyNode_Update_own dt scene pw rb p cs")
  with RigidbodyNode_Update_own_kinematic [OF assms(1), of dt scene pw p cs]
  have "p' = p" by simp
  with o assms(2) have "Node_Update engine dt scene pw (mk rb') p cs = Inr n'"
    by simp
  then show ?thesis by (rule Node_Update_position)
qed

text \<open>
  A body that is not kinematic does move: velocity first, then position with the new
  velocity.
\<close>

lemma RigidbodyNode_Update_own_dynamic:
  "RigidbodyNode_Update_own (1 / 2) [] (0, 0, 0)
     ((RigidbodyNode_ctor 1 (RectangleCollisionShape 1 1))
        \<lparr>velocity := (2, 0), acceleration := (0, - 8)\<rparr>)
     (0, 10, 1) []
   = ((RigidbodyNode_ctor 1 (RectangleCollisionShape 1 1))
        \<lparr>velocity := (2, - 4), acceleration := (0, - 8)\<rparr>,
      (1, 8, 1))"
  by (simp add: RigidbodyNode_Update_own_def RigidbodyNode_ctor_def Let_def worldPosition_def)

text \<open>
  C9. For a rigidbody whose \<^verbatim>\<open>isKinematic\<close> flag is set, one update leaves the
  position as it is, whatever the velocity, the acceleration and the time step: steps 1
  to 4 return the position they were given, and so does every update that ends without
  a fault in the subtree.
\<close>

theorem kinematic_position_unchanged:
  assumes "isKinematic rb"
  shows "snd (RigidbodyNode_Update_own dt scene pw rb p cs) = p
       \<and> (\<forall>n'. RigidbodyNode_Update engine dt scene pw mk rb p cs = Inr n' \<longrightarrow> position n' = p)
       \<and> (\<forall>n'. Update engine dt scene pw (Node (RigidbodyNode rb) p cs) = Inr n'
              \<longrightarrow> position n' = p)"
proof -
  have a: "snd (RigidbodyNode_Update_own dt scene pw rb p cs) = p"
    using assms by (rule RigidbodyNode_Update_own_kinematic)
  have b: "position n' = p"
    if "RigidbodyNode_Update engine dt scene pw f rb p cs = Inr n'" for n' f
    using assms that by (rule RigidbodyNode_Update_kinematic)
  have c: "position n' = p"
    if "Update engine dt scene pw (Node (RigidbodyNode rb) p cs) = Inr n'" for n'
    using that b [of RigidbodyNode n'] by simp
  from a b c show ?thesis by blast
qed

theorem kinematic_position_unchanged_witness:
  "Update \<lparr>key_W = False, key_S = False, key_A = False, key_D = False\<rparr> (1 / 2)
     [(9, ((3.5, 4), (0.5, 0.5))), (8, ((5, 4), (0.5, 0.5)))] (0, 0, 0)
     (Node (RigidbodyNode
              ((RigidbodyNode_ctor 7 (RectangleCollisionShape 1 1))
                 \<lparr>velocity := (2, 0), acceleration := (0, - 8), isKinematic := True\<rparr>))
        (3, 4, 0) [Node (SpriteNode (1, 1)) (0, 0, 0) []])
   = Inr (Node (RigidbodyNode
              ((RigidbodyNode_ctor 7 (RectangleCollisionShape 1 1))
                 \<lparr>velocity := (2, 0), acceleration := (0, - 8), isKinematic := True,
                  overlappedNodesThisFrame := [9]\<rparr>))
        (3, 4, 0) [Node (SpriteNode (1, 1)) (0, 0, 0) []])"
proof -
  let ?E = "\<lparr>key_W = False, key_S = False, key_A = False, key_D = False\<rparr>"
  let ?sc = "[(9, ((3.5, 4), (0.5, 0.5))), (8, ((5, 4), (0.5, 0.5)))] :: (nat \<times> aabb) list"
  let ?rb = "(RigidbodyNode_ctor 7 (RectangleCollisionShape 1 1))
                 \<lparr>velocity := (2, 0), acceleration := (0, - 8), isKinematic := True\<rparr>"
  let ?cs = "[Node (SpriteNode (1, 1)) (0, 0, 0) []]"
  have h: "isKinematic ?rb" by simp
  obtain n' where u: "Update ?E (1 / 2) ?sc (0, 0, 0) (Node (RigidbodyNode ?rb) (3, 4, 0) ?cs) = Inr n'"
    and k: "nodeClass n' = RigidbodyNode (?rb\<lparr>overlappedNodesThisFrame := [9]\<rparr>)"
    and c: "children n' = ?cs"
    by (simp add: RigidbodyNode_Update_own_def RigidbodyNode_ctor_def Let_def worldPosition_def
          aabbOverlap_def)
  from kinematic_position_unchanged [OF h, of "1 / 2" ?sc "(0, 0, 0)" "(3, 4, 0)" ?cs ?E RigidbodyNode]
    u
  have "position n' = (3, 4, 0)"
    by blast
  with k c have "n' = Node (RigidbodyNode (?rb\<lparr>overlappedNodesThisFrame := [9]\<rparr>)) (3, 4, 0) ?cs"
    by (cases n') simp
  with u show ?thesis by simp
qed

section \<open>Properties of the Map\<close>

declare Map_file_loop.simps [simp del]
declare fileLines.simps [simp del]

lemma tilesFor_Nil: "tilesFor clone nm [] = []"
  by (simp add: tilesFor_def map_filter_simps)

lemma tilesFor_Cons:
  "tilesFor clone nm (cell # cs) =
     (case tileFor clone nm cell of
        None \<Rightarrow> tilesFor clone nm cs
      | Some t \<Rightarrow> t # tilesFor clone nm cs)"
  by (simp add: tilesFor_def map_filter_simps split: option.splits)

lemma tilesFor_append:
  "tilesFor clone nm (xs @ ys) = tilesFor clone nm xs @ tilesFor clone nm ys"
  by (simp add: tilesFor_def map_filter_def)

lemma tilesFor_all_Some:
  "\<forall>cell \<in> set cs. hasPrototype nm cell \<Longrightarrow>
     map Some (tilesFor clone nm cs) = map (tileFor clone nm) cs"
  by (induction cs)
     (auto simp: tilesFor_Nil tilesFor_Cons hasPrototype_def tileFor_def split: option.splits)

lemma cellsOfLine_Nil: "cellsOfLine r c [] = []"
  by (simp add: cellsOfLine_def)

lemma cellsOfLine_Cons: "cellsOfLine r c (ch # rest) = (r, c, ch) # cellsOfLine r (Suc c) rest"
  by (simp add: cellsOfLine_def)

lemma cellsFrom_Nil: "cellsFrom r [] = []"
  by (simp add: cellsFrom_def)

lemma cellsFrom_Cons: "cellsFrom r (l # ls) = cellsOfLine r 0 l @ cellsFrom (Suc r) ls"
  by (simp add: cellsFrom_def)

lemma cellsOfLine_all:
  "(\<forall>cell \<in> set (cellsOfLine r c line). hasPrototype nm cell)
     \<longleftrightarrow> (\<forall>ch \<in> set line. nm ch \<noteq> None)"
  by (induction line arbitrary: c) (auto simp: cellsOfLine_Nil cellsOfLine_Cons hasPrototype_def)

text \<open>
  The inner loop, with the counters at \<open>r\<close> and \<open>c\<close> increments from 0: it places the
  tiles of the line's cells in order, and stops at the first character without a
  prototype.
\<close>

lemma Map_line_loop_eq:
  "Map_line_loop clone nm (word_of_nat r) line (word_of_nat c) kids =
     (if \<forall>ch \<in> set line. nm ch \<noteq> None
      then Inr (word_of_nat (c + length line), kids @ tilesFor clone nm (cellsOfLine r c line))
      else Inl (OutOfRange,
                kids @ tilesFor clone nm (takeWhile (hasPrototype nm) (cellsOfLine r c line))))"
proof (induction line arbitrary: c kids)
  case Nil
  show ?case by (simp add: cellsOfLine_Nil tilesFor_Nil)
next
  case (Cons ch rest)
  show ?case
  proof (cases "nm ch")
    case None
    then have "\<not> hasPrototype nm (r, c, ch)" by (simp add: hasPrototype_def)
    with None show ?thesis
      by (simp add: cellsOfLine_Cons tilesFor_Nil)
  next
    case (Some proto)
    then have h: "hasPrototype nm (r, c, ch)" by (simp add: hasPrototype_def)
    have t: "tileFor clone nm (r, c, ch)
               = Some (SetPosition (clone proto)
                         (float_of_int (sint (word_of_nat c :: 32 word)),
                          float_of_int (sint (word_of_nat r :: 32 word)), 0))"
      using Some by (simp add: tileFor_def countAsFloat_def)
    have s: "(word_of_nat c + 1 :: 32 word) = word_of_nat (Suc c)"
      by simp
    have "Map_line_loop clone nm (word_of_nat r) (ch # rest) (word_of_nat c) kids
            = Map_line_loop clone nm (word_of_nat r) rest (word_of_nat (Suc c))
                (kids @ [SetPosition (clone proto)
                           (float_of_int (sint (word_of_nat c :: 32 word)),
                            float_of_int (sint (word_of_nat r :: 32 word)), 0)])"
      using Some by (simp only: Map_line_loop.simps option.case Let_def AddChild_def s)
    also note Cons.IH [of "Suc c"]
    finally show ?thesis
      using Some h t by (simp add: cellsOfLine_Cons tilesFor_Cons)
  qed
qed

lemma fileLines_Some: "getline stream = Some (l, s') \<Longrightarrow> fileLines stream = l # fileLines s'"
  by (simp add: fileLines.simps [of stream])

lemma fileLines_None: "getline stream = None \<Longrightarrow> fileLines stream = []"
  by (simp add: fileLines.simps [of stream])

text \<open>The outer loop, by induction along the lines that \<open>getline\<close> delivers.\<close>

lemma Map_file_loop_eq:
  "Map_file_loop clone nm stream (word_of_nat r) sz kids =
     (if \<forall>cell \<in> set (cellsFrom r (fileLines stream)). hasPrototype nm cell
      then Inr (word_of_nat (r + length (fileLines stream)),
                (fold max (map (\<lambda>l. countAsFloat (length l)) (fileLines stream)) (fst sz),
                 snd sz),
                kids @ tilesFor clone nm (cellsFrom r (fileLines stream)))
      else Inl (OutOfRange,
                kids @ tilesFor clone nm
                         (takeWhile (hasPrototype nm) (cellsFrom r (fileLines stream)))))"
proof (induction stream arbitrary: r sz kids rule: fileLines.induct)
  case (1 stream)
  show ?case
  proof (cases "getline stream")
    case None
    then show ?thesis
      by (simp add: Map_file_loop.simps [of _ _ stream] fileLines_None cellsFrom_Nil tilesFor_Nil)
  next
    case (Some a)
    obtain l s' where a: "a = (l, s')" by (cases a)
    with Some have g: "getline stream = Some (l, s')" by simp
    note fl = fileLines_Some [OF g]
    note IH = "1.IH" [OF g, where r = "Suc r"]
    have s: "(word_of_nat r + 1 :: 32 word) = word_of_nat (Suc r)"
      by simp
    show ?thesis
    proof (cases "\<forall>ch \<in> set l. nm ch \<noteq> None")
      case True
      then have all: "\<forall>cell \<in> set (cellsOfLine r 0 l). hasPrototype nm cell"
        by (simp add: cellsOfLine_all)
      have "Map_line_loop clone nm (word_of_nat r) l (word_of_nat 0) kids
              = Inr (word_of_nat (0 + length l), kids @ tilesFor clone nm (cellsOfLine r 0 l))"
        unfolding Map_line_loop_eq using True by (rule if_P)
      then have l1: "Map_line_loop clone nm (word_of_nat r) l 0 kids
                  = Inr (word_of_nat (length l), kids @ tilesFor clone nm (cellsOfLine r 0 l))"
        by simp
      have "Map_file_loop clone nm stream (word_of_nat r) sz kids
              = Map_file_loop clone nm s' (word_of_nat (Suc r))
                  (max (fst sz) (countAsFloat (length l)), snd sz)
                  (kids @ tilesFor clone nm (cellsOfLine r 0 l))"
        by (simp add: Map_file_loop.simps [of _ _ stream] g l1 s countAsFloat_def
              del: of_nat_Suc)
      then show ?thesis
        by (simp add: IH fl cellsFrom_Cons all tilesFor_append ball_Un
              max.commute [of "fst sz"] del: of_nat_Suc)
    next
      case False
      then have "\<not> (\<forall>cell \<in> set (cellsOfLine r 0 l). hasPrototype nm cell)"
        by (simp add: cellsOfLine_all)
      then obtain x where x: "x \<in> set (cellsOfLine r 0 l)" "\<not> hasPrototype nm x" by blast
      then have tw: "takeWhile (hasPrototype nm)
                       (cellsOfLine r 0 l @ cellsFrom (Suc r) (fileLines s'))
                   = takeWhile (hasPrototype nm) (cellsOfLine r 0 l)"
        by (simp add: takeWhile_append1)
      have "Map_line_loop clone nm (word_of_nat r) l (word_of_nat 0) kids =
                  Inl (OutOfRange,
                       kids @ tilesFor clone nm (takeWhile (hasPrototype nm) (cellsOfLine r 0 l)))"
        unfolding Map_line_loop_eq using False by (rule if_not_P)
      then have l2: "Map_line_loop clone nm (word_of_nat r) l 0 kids =
                  Inl (OutOfRange,
                       kids @ tilesFor clone nm (takeWhile (hasPrototype nm) (cellsOfLine r 0 l)))"
        by simp
      have lhs: "Map_file_loop clone nm stream (word_of_nat r) sz kids =
                  Inl (OutOfRange,
                       kids @ tilesFor clone nm (takeWhile (hasPrototype nm) (cellsOfLine r 0 l)))"
        by (simp add: Map_file_loop.simps [of _ _ stream] g l2)
      have cond: "\<not> (\<forall>cell \<in> set (cellsFrom r (fileLines stream)). hasPrototype nm cell)"
        using x by (auto simp: fl cellsFrom_Cons)
      have tw': "takeWhile (hasPrototype nm) (cellsFrom r (fileLines stream))
                   = takeWhile (hasPrototype nm) (cellsOfLine r 0 l)"
        using tw by (simp add: fl cellsFrom_Cons)
      show ?thesis
        by (simp only: lhs cond if_False tw')
    qed
  qed
qed

text \<open>What the constructor returns, for every file.\<close>

lemma Map_ctor_eq:
  "Map_ctor clone file nm =
     (if \<forall>cell \<in> set (cells (fileLines (ifstream file))). hasPrototype nm cell
      then Inr (Node (MapNode
                        (fold max (map (\<lambda>l. countAsFloat (length l))
                                     (fileLines (ifstream file))) 0,
                         countAsFloat (length (fileLines (ifstream file)))))
                  (0, 0, 0) (tilesFor clone nm (cells (fileLines (ifstream file)))))
      else Inl (OutOfRange,
                tilesFor clone nm
                  (takeWhile (hasPrototype nm) (cells (fileLines (ifstream file))))))"
  using Map_file_loop_eq [of clone nm "ifstream file" 0 "(0, 0)" "[]"]
  by (simp add: Map_ctor_def cells_def Let_def countAsFloat_def)


text \<open>
  Up to \<open>2 ^ 24\<close> the conversion of a counter is exact, so the width of a file of
  lines of at most \<open>2 ^ 24\<close> characters is the greatest length of a line.
\<close>

lemma fold_max_real:
  "fold max (map (\<lambda>l. real (length l)) ls) (real a) = real (Max (set (a # map length ls)))"
proof -
  have "fold max (map (\<lambda>l. real (length l)) ls) (real a) = real (fold max (map length ls) a)"
    by (induction ls arbitrary: a) (simp_all add: max_def)
  also have "\<dots> = real (Max (set (a # map length ls)))"
    by (simp only: Max.set_eq_fold)
  finally show ?thesis .
qed

lemma Max_lengths:
  "Max (set (0 # map length ls)) = (if ls = [] then 0 else Max (set (map length ls)))"
proof (cases ls)
  case Nil
  then show ?thesis by simp
next
  case (Cons l rest)
  then have "set (map length ls) \<noteq> {}" by simp
  then have "Max (insert 0 (set (map length ls))) = max 0 (Max (set (map length ls)))"
    by (intro Max_insert) simp_all
  with Cons show ?thesis by simp
qed

lemma fold_max_countAsFloat:
  assumes "\<forall>line \<in> set ls. length line \<le> 2 ^ 24"
  shows "fold max (map (\<lambda>l. countAsFloat (length l)) ls) 0
           = real (if ls = [] then 0 else Max (set (map length ls)))"
proof -
  have "map (\<lambda>l. countAsFloat (length l)) ls = map (\<lambda>l. real (length l)) ls"
    using assms by (simp add: countAsFloat_exact)
  moreover have "fold max (map (\<lambda>l. real (length l)) ls) 0
                   = real (if ls = [] then 0 else Max (set (map length ls)))"
    using fold_max_real [of ls 0] unfolding Max_lengths by simp
  ultimately show ?thesis by (simp only:)
qed

text \<open>
  The cells by index: line after line, and within a line column after column, the cell
  of line \<open>r\<close> and column \<open>c\<close> holds the character \<open>ls ! r ! c\<close>. There is one
  cell for each character of the file.
\<close>

lemma enumerate_map_nth:
  "map f (enumerate 0 xs) = map (\<lambda>i. f (i, xs ! i)) [0..<length xs]"
  by (rule nth_equalityI) (simp_all add: nth_enumerate_eq)

lemma cells_by_index:
  "cells ls =
     concat (map (\<lambda>r. map (\<lambda>c. (r, c, ls ! r ! c)) [0..<length (ls ! r)]) [0..<length ls])"
  by (simp add: cells_def cellsFrom_def cellsOfLine_def enumerate_map_nth)

lemma length_cellsFrom: "length (cellsFrom r ls) = sum_list (map length ls)"
  by (induction ls arbitrary: r) (simp_all add: cellsFrom_Nil cellsFrom_Cons cellsOfLine_def)

lemma length_cells: "length (cells ls) = sum_list (map length ls)"
  by (simp add: cells_def length_cellsFrom)

lemma cells_all_hasPrototype:
  "(\<forall>cell \<in> set (cells ls). hasPrototype nm cell)
     \<longleftrightarrow> (\<forall>line \<in> set ls. \<forall>ch \<in> set line. nm ch \<noteq> None)"
proof -
  have "(\<forall>cell \<in> set (cellsFrom r ls). hasPrototype nm cell)
          \<longleftrightarrow> (\<forall>line \<in> set ls. \<forall>ch \<in> set line. nm ch \<noteq> None)" for r
    by (induction ls arbitrary: r) (simp_all add: cellsFrom_Nil cellsFrom_Cons ball_Un cellsOfLine_all)
  then show ?thesis by (simp add: cells_def)
qed

text \<open>
  In a file of at most \<open>2 ^ 24\<close> lines of at most \<open>2 ^ 24\<close> characters, the tile of
  every cell is at the cell's column and line.
\<close>

lemma tileFor_gridTile:
  assumes "length ls \<le> 2 ^ 24"
    and "\<forall>line \<in> set ls. length line \<le> 2 ^ 24"
    and "cell \<in> set (cells ls)"
  shows "tileFor clone nm cell = gridTile clone nm cell"
proof -
  obtain r c ch where cell: "cell = (r, c, ch)" by (cases cell)
  with assms(3) have r: "r < length ls" and c: "c < length (ls ! r)"
    by (auto simp: cells_by_index)
  from r assms(1) have "r \<le> 2 ^ 24" by simp
  moreover from r assms(2) have "length (ls ! r) \<le> 2 ^ 24" by simp
  with c have "c \<le> 2 ^ 24" by simp
  ultimately show ?thesis
    by (simp add: cell tileFor_def gridTile_def countAsFloat_exact)
qed

text \<open>Files that begin with empty lines.\<close>

lemma fileLines_empty: "fileLines [] = []"
  by (simp add: fileLines_None)

lemma fileLines_newlines:
  "fileLines (replicate n (CHR 0x0A) @ s) = replicate n [] @ fileLines s"
  by (induction n) (simp_all add: fileLines_Some)

lemma cellsFrom_empty_lines: "cellsFrom r (replicate n [] @ ls) = cellsFrom (r + n) ls"
  by (induction n arbitrary: r) (simp_all add: cellsFrom_Cons cellsOfLine_Nil)

lemma fold_max_zeros: "(max 0 ^^ n) (0::real) = 0"
  by (induction n) simp_all

lemma countAsFloat_0: "countAsFloat 0 = 0"
  using countAsFloat_exact [of 0] by simp

lemma countAsFloat_16777218: "countAsFloat 16777218 = 16777218"
proof -
  have "sint (word_of_nat 16777218 :: 32 word) = 16777218"
    using sint_word_of_nat [of 16777218] by simp
  moreover have "nearest32 16777218 = 16777218"
    by (subst nearest32_at [of 1]) (simp_all add: roundHalfEven_def)
  ultimately show ?thesis by (simp add: countAsFloat_def float_of_int_def)
qed

text \<open>
  C6, as the code has it. For a grid file every character of which has a prototype, the
  constructor returns a Map whose children are, in reading order (left to right within
  a line, lines top to bottom), exactly one tile for each character: the clone of the
  character's prototype, its local position set to the conversions to \<^verbatim>\<open>float\<close> of
  the column and of the line. When the file has at most \<open>2 ^ 24\<close> lines of at most
  \<open>2 ^ 24\<close> characters, that position is (column, line, 0).
\<close>

theorem Map_ctor_tiles:
  assumes "\<forall>line \<in> set (fileLines (ifstream file)). \<forall>ch \<in> set line. nodesMap ch \<noteq> None"
  shows "\<exists>m. Map_ctor clone file nodesMap = Inr m
           \<and> map Some (children m)
             = map (tileFor clone nodesMap) (cells (fileLines (ifstream file)))
           \<and> length (children m) = sum_list (map length (fileLines (ifstream file)))
           \<and> (length (fileLines (ifstream file)) \<le> 2 ^ 24
                \<and> (\<forall>line \<in> set (fileLines (ifstream file)). length line \<le> 2 ^ 24)
              \<longrightarrow> map Some (children m)
                    = map (gridTile clone nodesMap) (cells (fileLines (ifstream file))))"
proof -
  let ?ls = "fileLines (ifstream file)"
  let ?m = "Node (MapNode (fold max (map (\<lambda>l. countAsFloat (length l)) ?ls) 0,
                           countAsFloat (length ?ls)))
              (0, 0, 0) (tilesFor clone nodesMap (cells ?ls))"
  have all: "\<forall>cell \<in> set (cells ?ls). hasPrototype nodesMap cell"
    unfolding cells_all_hasPrototype using assms .
  have m: "Map_ctor clone file nodesMap = Inr ?m"
    unfolding Map_ctor_eq using all by (rule if_P)
  have t: "map Some (children ?m) = map (tileFor clone nodesMap) (cells ?ls)"
    using tilesFor_all_Some [OF all, of clone] by simp
  have n: "length (children ?m) = sum_list (map length ?ls)"
    using arg_cong [OF t, of length] by (simp add: length_cells)
  have g: "map Some (children ?m) = map (gridTile clone nodesMap) (cells ?ls)"
    if "length ?ls \<le> 2 ^ 24" and "\<forall>line \<in> set ?ls. length line \<le> 2 ^ 24"
  proof -
    have "map (tileFor clone nodesMap) (cells ?ls) = map (gridTile clone nodesMap) (cells ?ls)"
      using that by (intro map_cong refl tileFor_gridTile)
    with t show ?thesis by simp
  qed
  from m t n g show ?thesis by blast
qed

theorem Map_ctor_tiles_witness:
  "\<exists>m. Map_ctor id (Some (''# #'' @ CHR 0x0A # ''##'' @ [CHR 0x0A])) (nodesMap_CreateNodeMap 1)
          = Inr m
      \<and> children m
        = [SetPosition (brickRigidBody 1) (0, 0, 0), SetPosition path (1, 0, 0),
           SetPosition (brickRigidBody 1) (2, 0, 0),
           SetPosition (brickRigidBody 1) (0, 1, 0), SetPosition (brickRigidBody 1) (1, 1, 0)]"
proof -
  let ?F = "Some (''# #'' @ CHR 0x0A # ''##'' @ [CHR 0x0A])"
  let ?nm = "nodesMap_CreateNodeMap 1"
  have fl: "fileLines (ifstream ?F) = [''# #'', ''##'']"
    by (simp add: ifstream_def fileLines.simps)
  have h: "\<forall>line \<in> set (fileLines (ifstream ?F)). \<forall>ch \<in> set line. ?nm ch \<noteq> None"
    unfolding fl by (simp add: nodesMap_CreateNodeMap_def)
  have k: "length (fileLines (ifstream ?F)) \<le> 2 ^ 24
             \<and> (\<forall>line \<in> set (fileLines (ifstream ?F)). length line \<le> 2 ^ 24)"
    unfolding fl by simp
  from Map_ctor_tiles [OF h, of id] k
  obtain m where a: "Map_ctor id ?F ?nm = Inr m"
    and b: "map Some (children m) = map (gridTile id ?nm) (cells (fileLines (ifstream ?F)))"
    by blast
  from b have "map Some (children m)
        = map Some [SetPosition (brickRigidBody 1) (0, 0, 0), SetPosition path (1, 0, 0),
           SetPosition (brickRigidBody 1) (2, 0, 0),
           SetPosition (brickRigidBody 1) (0, 1, 0), SetPosition (brickRigidBody 1) (1, 1, 0)]"
    unfolding fl
    by (simp add: cells_def cellsFrom_def cellsOfLine_def gridTile_def nodesMap_CreateNodeMap_def)
  then have "children m
        = [SetPosition (brickRigidBody 1) (0, 0, 0), SetPosition path (1, 0, 0),
           SetPosition (brickRigidBody 1) (2, 0, 0),
           SetPosition (brickRigidBody 1) (0, 1, 0), SetPosition (brickRigidBody 1) (1, 1, 0)]"
    by (simp only: inj_map_eq_map [OF inj_Some])
  with a show ?thesis by blast
qed

text \<open>
  The claim as the spec has it fails on a file with a character that has no prototype:
  the third character of the line \<open>#x#\<close> has one, but the constructor ends with the
  exception at \<open>x\<close>, no Map exists, and the tile of the third character was never made.
  It fails also beyond the precision of \<^verbatim>\<open>float\<close>: the character \<open>#\<close> after 16777217
  empty lines is at column 0 of line 16777217, and its tile is placed at line 16777216.
\<close>

theorem Map_ctor_tiles_counterexample:
  "Map_ctor id (Some ''#x#'') (nodesMap_CreateNodeMap 1)
     = Inl (OutOfRange, [SetPosition (brickRigidBody 1) (0, 0, 0)])
   \<and> gridTile id (nodesMap_CreateNodeMap 1) (0, 2, CHR ''#'')
     = Some (SetPosition (brickRigidBody 1) (2, 0, 0))
   \<and> Map_ctor id (Some (replicate 16777217 (CHR 0x0A) @ ''#'')) (nodesMap_CreateNodeMap 1)
     = Inr (Node (MapNode (1, 16777218)) (0, 0, 0)
              [SetPosition (brickRigidBody 1) (0, 16777216, 0)])
   \<and> gridTile id (nodesMap_CreateNodeMap 1) (16777217, 0, CHR ''#'')
     = Some (SetPosition (brickRigidBody 1) (0, 16777217, 0))"
proof -
  let ?nm = "nodesMap_CreateNodeMap 1"
  have f1: "fileLines (ifstream (Some ''#x#'')) = [''#x#'']"
    by (simp add: ifstream_def fileLines.simps)
  have a: "Map_ctor id (Some ''#x#'') ?nm
             = Inl (OutOfRange, [SetPosition (brickRigidBody 1) (0, 0, 0)])"
    unfolding Map_ctor_eq f1
    by (simp add: cells_def cellsFrom_def cellsOfLine_def hasPrototype_def tilesFor_def
          map_filter_simps tileFor_def nodesMap_CreateNodeMap_def countAsFloat_0)
  have b: "gridTile id ?nm (0, 2, CHR ''#'') = Some (SetPosition (brickRigidBody 1) (2, 0, 0))"
    by (simp add: gridTile_def nodesMap_CreateNodeMap_def)
  have f2: "fileLines (ifstream (Some (replicate 16777217 (CHR 0x0A) @ ''#'')))
              = replicate 16777217 [] @ [''#'']"
    unfolding ifstream_def option.case fileLines_newlines
    by (simp add: fileLines.simps)
  have c2: "cells (replicate 16777217 [] @ [''#'']) = [(16777217, 0, CHR ''#'')]"
    unfolding cells_def cellsFrom_empty_lines
    by (simp add: cellsFrom_def cellsOfLine_def)
  have w: "fold max (map (\<lambda>l. countAsFloat (length l)) (replicate 16777217 [] @ [''#''])) 0 = 1"
    using countAsFloat_exact [of 1]
    by (simp add: countAsFloat_0 fold_max_zeros)
  have c: "Map_ctor id (Some (replicate 16777217 (CHR 0x0A) @ ''#'')) ?nm
             = Inr (Node (MapNode (1, 16777218)) (0, 0, 0)
                      [SetPosition (brickRigidBody 1) (0, 16777216, 0)])"
    unfolding Map_ctor_eq f2 c2 w
    by (simp add: hasPrototype_def tilesFor_def map_filter_simps tileFor_def
          nodesMap_CreateNodeMap_def countAsFloat_0 countAsFloat_16777217 countAsFloat_16777218)
  have d: "gridTile id ?nm (16777217, 0, CHR ''#'')
             = Some (SetPosition (brickRigidBody 1) (0, 16777217, 0))"
    by (simp add: gridTile_def nodesMap_CreateNodeMap_def)
  from a b c d show ?thesis by blast
qed

text \<open>
  C7. A file that contains a character with no entry in the prototype map is not handled:
  the constructor ends with the failed lookup (\<^verbatim>\<open>std::out_of_range\<close>) and returns no
  Map; neither is the character skipped. At that moment the Map's children are the
  tiles of the characters before the first such character in reading order, and no
  tile of that character or a later one.
\<close>

theorem Map_ctor_missing_prototype:
  assumes "\<exists>line \<in> set (fileLines (ifstream file)). \<exists>ch \<in> set line. nodesMap ch = None"
  shows "\<exists>tiles. Map_ctor clone file nodesMap = Inl (OutOfRange, tiles)
           \<and> map Some tiles
             = map (tileFor clone nodesMap)
                 (takeWhile (hasPrototype nodesMap) (cells (fileLines (ifstream file))))"
proof -
  have n: "\<not> (\<forall>cell \<in> set (cells (fileLines (ifstream file))). hasPrototype nodesMap cell)"
    unfolding cells_all_hasPrototype using assms by blast
  have "Map_ctor clone file nodesMap
          = Inl (OutOfRange,
                 tilesFor clone nodesMap
                   (takeWhile (hasPrototype nodesMap) (cells (fileLines (ifstream file)))))"
    unfolding Map_ctor_eq using n by (rule if_not_P)
  moreover have "\<forall>cell \<in> set (takeWhile (hasPrototype nodesMap) (cells (fileLines (ifstream file)))).
                   hasPrototype nodesMap cell"
    by (auto dest: set_takeWhileD)
  note tilesFor_all_Some [OF this, of clone]
  ultimately show ?thesis by blast
qed

theorem Map_ctor_missing_prototype_witness:
  "Map_ctor id (Some (''# #'' @ CHR 0x0A # ''#x#'' @ CHR 0x0A # ''##''))
     (nodesMap_CreateNodeMap 1)
   = Inl (OutOfRange,
          [SetPosition (brickRigidBody 1) (0, 0, 0), SetPosition path (1, 0, 0),
           SetPosition (brickRigidBody 1) (2, 0, 0), SetPosition (brickRigidBody 1) (0, 1, 0)])"
proof -
  let ?F = "Some (''# #'' @ CHR 0x0A # ''#x#'' @ CHR 0x0A # ''##'')"
  let ?nm = "nodesMap_CreateNodeMap 1"
  have fl: "fileLines (ifstream ?F) = [''# #'', ''#x#'', ''##'']"
    by (simp add: ifstream_def fileLines.simps)
  have h: "\<exists>line \<in> set (fileLines (ifstream ?F)). \<exists>ch \<in> set line. ?nm ch = None"
    unfolding fl by (simp add: nodesMap_CreateNodeMap_def)
  from Map_ctor_missing_prototype [OF h, of id]
  obtain tiles where a: "Map_ctor id ?F ?nm = Inl (OutOfRange, tiles)"
    and b: "map Some tiles
             = map (tileFor id ?nm) (takeWhile (hasPrototype ?nm) (cells (fileLines (ifstream ?F))))"
    by blast
  from b have "map Some tiles
        = map Some [SetPosition (brickRigidBody 1) (0, 0, 0), SetPosition path (1, 0, 0),
           SetPosition (brickRigidBody 1) (2, 0, 0), SetPosition (brickRigidBody 1) (0, 1, 0)]"
    unfolding fl
    by (simp add: cells_def cellsFrom_def cellsOfLine_def tileFor_def hasPrototype_def
          nodesMap_CreateNodeMap_def countAsFloat_exact)
  then have "tiles
        = [SetPosition (brickRigidBody 1) (0, 0, 0), SetPosition path (1, 0, 0),
           SetPosition (brickRigidBody 1) (2, 0, 0), SetPosition (brickRigidBody 1) (0, 1, 0)]"
    by (simp only: inj_map_eq_map [OF inj_Some])
  with a show ?thesis by simp
qed

text \<open>
  C10, as the code has it. After the construction of a Map from a file with L lines, at
  most \<open>2 ^ 24\<close> of them and each of at most \<open>2 ^ 24\<close> characters, \<^verbatim>\<open>GetSize\<close>
  returns (M, L), M being the greatest length of a line of the file; the construction
  succeeds when every character has a prototype; for an empty file and for a file that
  cannot be opened it succeeds with the size (0, 0).
\<close>

theorem Map_GetSize:
  assumes "length (fileLines (ifstream file)) \<le> 2 ^ 24"
    and "\<forall>line \<in> set (fileLines (ifstream file)). length line \<le> 2 ^ 24"
  shows "(\<forall>m. Map_ctor clone file nodesMap = Inr m \<longrightarrow>
            GetSize m
              = Some (real (if fileLines (ifstream file) = [] then 0
                            else Max (set (map length (fileLines (ifstream file))))),
                      real (length (fileLines (ifstream file)))))
   \<and> ((\<forall>line \<in> set (fileLines (ifstream file)). \<forall>ch \<in> set line. nodesMap ch \<noteq> None)
        \<longrightarrow> (\<exists>m. Map_ctor clone file nodesMap = Inr m))
   \<and> (\<exists>m. Map_ctor clone None nodesMap = Inr m \<and> GetSize m = Some (0, 0))
   \<and> (\<exists>m. Map_ctor clone (Some []) nodesMap = Inr m \<and> GetSize m = Some (0, 0))"
proof -
  note w = fold_max_countAsFloat [OF assms(2)]
  note l = countAsFloat_exact [OF assms(1)]
  have a: "GetSize m
           = Some (real (if fileLines (ifstream file) = [] then 0
                         else Max (set (map length (fileLines (ifstream file))))),
                   real (length (fileLines (ifstream file))))"
    if "Map_ctor clone file nodesMap = Inr m" for m
    using that unfolding Map_ctor_eq w l by (auto split: if_splits)
  have b: "\<exists>m. Map_ctor clone file nodesMap = Inr m"
    if "\<forall>line \<in> set (fileLines (ifstream file)). \<forall>ch \<in> set line. nodesMap ch \<noteq> None"
  proof -
    have "\<forall>cell \<in> set (cells (fileLines (ifstream file))). hasPrototype nodesMap cell"
      unfolding cells_all_hasPrototype using that .
    then show ?thesis unfolding Map_ctor_eq by (simp only: if_P) blast
  qed
  have c: "\<exists>m. Map_ctor clone None nodesMap = Inr m \<and> GetSize m = Some (0, 0)"
    by (simp add: Map_ctor_eq ifstream_def fileLines_empty cells_def cellsFrom_Nil countAsFloat_0)
  have d: "\<exists>m. Map_ctor clone (Some []) nodesMap = Inr m \<and> GetSize m = Some (0, 0)"
    by (simp add: Map_ctor_eq ifstream_def fileLines_empty cells_def cellsFrom_Nil countAsFloat_0)
  from a b c d show ?thesis by blast
qed

theorem Map_GetSize_witness:
  "\<exists>m. Map_ctor id (Some (''# #'' @ CHR 0x0A # ''##'' @ [CHR 0x0A])) (nodesMap_CreateNodeMap 1)
          = Inr m
      \<and> GetSize m = Some (3, 2)"
proof -
  let ?F = "Some (''# #'' @ CHR 0x0A # ''##'' @ [CHR 0x0A])"
  let ?nm = "nodesMap_CreateNodeMap 1"
  have fl: "fileLines (ifstream ?F) = [''# #'', ''##'']"
    by (simp add: ifstream_def fileLines.simps)
  have h: "\<forall>line \<in> set (fileLines (ifstream ?F)). \<forall>ch \<in> set line. ?nm ch \<noteq> None"
    unfolding fl by (simp add: nodesMap_CreateNodeMap_def)
  have k1: "length (fileLines (ifstream ?F)) \<le> 2 ^ 24"
    unfolding fl by simp
  have k2: "\<forall>line \<in> set (fileLines (ifstream ?F)). length line \<le> 2 ^ 24"
    unfolding fl by simp
  note t = Map_GetSize [OF k1 k2, of id ?nm]
  from t h obtain m where a: "Map_ctor id ?F ?nm = Inr m" by blast
  with t have "GetSize m
           = Some (real (if fileLines (ifstream ?F) = [] then 0
                         else Max (set (map length (fileLines (ifstream ?F))))),
                   real (length (fileLines (ifstream ?F))))"
    by blast
  then have "GetSize m = Some (3, 2)"
    unfolding fl by simp
  with a show ?thesis by blast
qed

text \<open>
  The claim as the spec has it fails beyond the precision of \<^verbatim>\<open>float\<close>: a file of
  16777217 empty lines has 16777217 lines, and the size of its Map is (0, 16777216).
\<close>

theorem Map_GetSize_counterexample:
  "Map_ctor id (Some (replicate 16777217 (CHR 0x0A))) (nodesMap_CreateNodeMap 1)
     = Inr (Node (MapNode (0, 16777216)) (0, 0, 0) [])
   \<and> GetSize (Node (MapNode (0, 16777216)) (0, 0, 0) []) = Some (0, 16777216)
   \<and> length (fileLines (ifstream (Some (replicate 16777217 (CHR 0x0A))))) = 16777217"
proof -
  have f: "fileLines (ifstream (Some (replicate 16777217 (CHR 0x0A)))) = replicate 16777217 []"
    using fileLines_newlines [of 16777217 "[]"]
    by (simp add: ifstream_def fileLines_empty)
  have c: "cells (replicate 16777217 []) = []"
    using cellsFrom_empty_lines [of 0 16777217 "[]"]
    by (simp add: cells_def cellsFrom_Nil)
  have a: "Map_ctor id (Some (replicate 16777217 (CHR 0x0A))) (nodesMap_CreateNodeMap 1)
             = Inr (Node (MapNode (0, 16777216)) (0, 0, 0) [])"
    unfolding Map_ctor_eq f c
    by (simp add: tilesFor_Nil countAsFloat_0 fold_max_zeros countAsFloat_16777217)
  from a f show ?thesis by simp
qed
section \<open>Properties of the shape factory\<close>

lemma setProduct_live:
  assumes "factoryProduct h this = Some old"
  shows "setProduct this shape h
           = Inr (this,
                  h\<lparr>factoryProduct := (factoryProduct h)(this \<mapsto> Some (nextAddress h)),
                    shapeAt := (shapeAt h)(nextAddress h \<mapsto> shape),
                    nextAddress := nextAddress h + 1\<rparr>)"
  using assms by (simp add: setProduct_def)

lemma heapOk_fresh: "heapOk h \<Longrightarrow> shapeAt h a = Some v \<Longrightarrow> a \<noteq> nextAddress h"
  by (auto simp: heapOk_def)

text \<open>No call of the interface changes a shape that is in the store, and every call keeps
  the allocator's invariant.\<close>

lemma factoryCall_heapOk: "heapOk h \<Longrightarrow> heapOk (factoryCall call h)"
proof (cases call)
  case CallCreateFactory
  assume "heapOk h"
  with CallCreateFactory show ?thesis
    by (auto simp: heapOk_def CreateFactory_def less_Suc_eq dom_def)
next
  case (CallCreateRectangleCollisionShape this height width)
  assume "heapOk h"
  with CallCreateRectangleCollisionShape show ?thesis
    by (auto simp: heapOk_def CreateRectangleCollisionShape_def setProduct_def less_Suc_eq dom_def
             split: option.splits)
next
  case (CallCreateCircleCollisionShape this radius)
  assume "heapOk h"
  with CallCreateCircleCollisionShape show ?thesis
    by (auto simp: heapOk_def CreateCircleCollisionShape_def setProduct_def less_Suc_eq dom_def
             split: option.splits)
next
  case (CallBuild this)
  assume "heapOk h"
  with CallBuild show ?thesis by simp
qed

lemma factoryCall_shape:
  assumes "heapOk h" and "shapeAt h a = Some v"
  shows "shapeAt (factoryCall call h) a = Some v"
proof -
  note f = heapOk_fresh [OF assms]
  show ?thesis
  proof (cases call)
    case CallCreateFactory
    with assms show ?thesis by (simp add: CreateFactory_def)
  next
    case (CallCreateRectangleCollisionShape this height width)
    with assms f show ?thesis
      by (simp add: CreateRectangleCollisionShape_def setProduct_def split: option.splits)
  next
    case (CallCreateCircleCollisionShape this radius)
    with assms f show ?thesis
      by (simp add: CreateCircleCollisionShape_def setProduct_def split: option.splits)
  next
    case (CallBuild this)
    with assms show ?thesis by simp
  qed
qed

lemma factoryCalls_shape:
  "heapOk h \<Longrightarrow> shapeAt h a = Some v \<Longrightarrow> shapeAt (fold factoryCall calls h) a = Some v"
proof (induction calls arbitrary: h)
  case Nil
  then show ?case by simp
next
  case (Cons call calls)
  from Cons.prems have "heapOk (factoryCall call h)"
    by (simp add: factoryCall_heapOk)
  moreover from Cons.prems have "shapeAt (factoryCall call h) a = Some v"
    by (simp add: factoryCall_shape)
  ultimately show ?case by (simp add: Cons.IH)
qed

lemma setProduct_chain:
  assumes "heapOk h" and "factoryProduct h this = Some old"
  shows "\<exists>h' s. setProduct this shape h = Inr (this, h')
           \<and> Build this h' = Inr (Some s)
           \<and> shapeAt h' s = Some shape
           \<and> (\<forall>calls. shapeAt (fold factoryCall calls h') s = Some shape)"
proof -
  let ?h' = "h\<lparr>factoryProduct := (factoryProduct h)(this \<mapsto> Some (nextAddress h)),
               shapeAt := (shapeAt h)(nextAddress h \<mapsto> shape),
               nextAddress := nextAddress h + 1\<rparr>"
  have a: "setProduct this shape h = Inr (this, ?h')"
    using assms(2) by (rule setProduct_live)
  have b: "Build this ?h' = Inr (Some (nextAddress h))"
    by (simp add: Build_def)
  have c: "shapeAt ?h' (nextAddress h) = Some shape"
    by simp
  have ok: "heapOk ?h'"
    using assms by (auto simp: heapOk_def less_Suc_eq dom_def)
  have d: "shapeAt (fold factoryCall calls ?h') (nextAddress h) = Some shape" for calls
    using ok c by (rule factoryCalls_shape)
  from a b c d show ?thesis by blast
qed

text \<open>
  C8. The factory offers \<^verbatim>\<open>CreateRectangleCollisionShape(height, width)\<close> and
  \<^verbatim>\<open>CreateCircleCollisionShape(radius)\<close>; a call of either on a factory returns that
  same factory, so that calls chain; \<^verbatim>\<open>Build\<close> on it then returns the finished shape,
  and no later call of the factory's interface changes that shape.
\<close>

theorem CollisionShapeFactory_chaining:
  assumes "heapOk h" and "factoryProduct h this = Some old"
  shows "(\<exists>h' s. CreateRectangleCollisionShape this height width h = Inr (this, h')
            \<and> Build this h' = Inr (Some s)
            \<and> shapeAt h' s = Some (RectangleCollisionShape height width)
            \<and> (\<forall>calls. shapeAt (fold factoryCall calls h') s
                         = Some (RectangleCollisionShape height width)))
       \<and> (\<exists>h' s. CreateCircleCollisionShape this radius h = Inr (this, h')
            \<and> Build this h' = Inr (Some s)
            \<and> shapeAt h' s = Some (CircleCollisionShape radius)
            \<and> (\<forall>calls. shapeAt (fold factoryCall calls h') s
                         = Some (CircleCollisionShape radius)))"
  unfolding CreateRectangleCollisionShape_def CreateCircleCollisionShape_def
  using setProduct_chain [OF assms] by blast

theorem CollisionShapeFactory_chaining_witness:
  "\<exists>h' s. CreateCircleCollisionShape 0 (0.5 - 1 / 32)
            (snd (CreateFactory \<lparr>factoryProduct = Map.empty, shapeAt = Map.empty, nextAddress = 0\<rparr>))
          = Inr (fst (CreateFactory \<lparr>factoryProduct = Map.empty, shapeAt = Map.empty, nextAddress = 0\<rparr>), h')
      \<and> Build 0 h' = Inr (Some s)
      \<and> shapeAt h' s = Some (CircleCollisionShape (0.5 - 1 / 32))
      \<and> shapeAt (fold factoryCall
                    [CallCreateRectangleCollisionShape 0 0.15 0.7, CallCreateFactory, CallBuild 0] h') s
        = Some (CircleCollisionShape (0.5 - 1 / 32))"
proof -
  let ?emp = "\<lparr>factoryProduct = Map.empty, shapeAt = Map.empty, nextAddress = 0\<rparr>"
  let ?h = "snd (CreateFactory ?emp)"
  have f: "fst (CreateFactory ?emp) = 0" by (simp add: CreateFactory_def)
  have h1: "heapOk ?h" by (simp add: heapOk_def CreateFactory_def)
  have h2: "factoryProduct ?h 0 = Some None" by (simp add: CreateFactory_def)
  from CollisionShapeFactory_chaining [OF h1 h2, of 1 1 "0.5 - 1 / 32"]
  obtain h' s where a: "CreateCircleCollisionShape 0 (0.5 - 1 / 32) ?h = Inr (0, h')"
    and b: "Build 0 h' = Inr (Some s)"
    and c: "shapeAt h' s = Some (CircleCollisionShape (0.5 - 1 / 32))"
    and d: "\<forall>calls. shapeAt (fold factoryCall calls h') s
                         = Some (CircleCollisionShape (0.5 - 1 / 32))"
    by blast
  from d have e: "shapeAt (fold factoryCall
                    [CallCreateRectangleCollisionShape 0 0.15 0.7, CallCreateFactory, CallBuild 0] h') s
        = Some (CircleCollisionShape (0.5 - 1 / 32))"
    by (rule spec)
  show ?thesis unfolding f using a b c e by blast
qed

end
